theory Spec2Isabelle
  imports Main "HOL-Library.Sublist" "HOL-Library.Char_ord" "HOL-Library.List_Lexorder"
    "HOL-Library.Product_Lexorder"
begin

section \<open>Strings\<close>

text \<open>
  A Python \<open>str\<close> is modelled as a \<open>string\<close> whose characters are the code points
  below 256. \<open>str.lower()\<close> on that range maps \<open>A\<close>..\<open>Z\<close> and the Latin-1 capitals
  (192..222 except the multiplication sign 215) to the code point 32 above, which is the
  same as setting bit 5, and leaves every other character alone.
\<close>

definition is_upper :: "char \<Rightarrow> bool" where
  "is_upper c = (let n = (of_char c :: nat) in
     (65 \<le> n \<and> n \<le> 90) \<or> (192 \<le> n \<and> n \<le> 222 \<and> n \<noteq> 215))"

fun lower_char :: "char \<Rightarrow> char" where
  "lower_char (Char b0 b1 b2 b3 b4 b5 b6 b7) =
     (if is_upper (Char b0 b1 b2 b3 b4 b5 b6 b7) then Char b0 b1 b2 b3 b4 True b6 b7
      else Char b0 b1 b2 b3 b4 b5 b6 b7)"

definition lower :: "string \<Rightarrow> string" where
  "lower s = map lower_char s"

text \<open>\<open>k in s\<close> on strings: \<open>k\<close> occurs in \<open>s\<close> as a contiguous block.\<close>

fun py_in :: "string \<Rightarrow> string \<Rightarrow> bool" where
  "py_in k [] = (k = [])"
| "py_in k (c # s) = (prefix k (c # s) \<or> py_in k s)"

text \<open>\<open>any(k in s for k in ks)\<close>.\<close>

definition any_in :: "string list \<Rightarrow> string \<Rightarrow> bool" where
  "any_in ks s = list_ex (\<lambda>k. py_in k s) ks"

section \<open>Router keywords (app.py)\<close>

definition SQL_AGENT_KEYWORDS :: "string list" where
  "SQL_AGENT_KEYWORDS =
    [''book'', ''booking'', ''reserve'', ''reservation'', ''reservations'',
     ''cancel'', ''cancellation'', ''delete'', ''remove'',
     ''slot'', ''slots'', ''available'', ''availability'',
     ''my appointments'', ''my bookings'', ''my reservations'',
     ''appointment'', ''appointments'',
     ''database'', ''db'',
     ''slot_id'', ''slot id'']"

definition SUMMARY_AGENT_KEYWORDS :: "string list" where
  "SUMMARY_AGENT_KEYWORDS =
    [''summary'', ''summarize'', ''summarise'', ''recap'', ''recapitulate'',
     ''consultation summary'', ''consultation report'',
     ''what did we discuss'', ''what we discussed'',
     ''give me a summary'', ''show summary'']"

definition should_use_sql_agent :: "string \<Rightarrow> bool" where
  "should_use_sql_agent message = any_in SQL_AGENT_KEYWORDS (lower message)"

definition should_use_summary_agent :: "string \<Rightarrow> bool" where
  "should_use_summary_agent message = any_in SUMMARY_AGENT_KEYWORDS (lower message)"

text \<open>
  The router is the \<open>if\<close>/\<open>elif\<close>/\<open>else\<close> chain at the head of the \<open>try\<close> block of
  \<open>chat_socket\<close>: summary first, then sql, then the medical agent.
\<close>

datatype intent = Summary | SqlAgent | MedicalQa

definition route :: "string \<Rightarrow> intent" where
  "route msg =
     (if should_use_summary_agent msg then Summary
      else if should_use_sql_agent msg then SqlAgent
      else MedicalQa)"

section \<open>Text helpers\<close>

text \<open>\<open>sep.join(xs)\<close>.\<close>

fun join :: "string \<Rightarrow> string list \<Rightarrow> string" where
  "join sep [] = []"
| "join sep [x] = x"
| "join sep (x # y # ys) = x @ sep @ join sep (y # ys)"

text \<open>\<open>str(n)\<close> for an integer: decimal digits, with a minus sign below zero.\<close>

definition digit_char :: "nat \<Rightarrow> char" where
  "digit_char n = ''0123456789'' ! n"

fun str_nat :: "nat \<Rightarrow> string" where
  "str_nat n = (if n < 10 then [digit_char n] else str_nat (n div 10) @ [digit_char (n mod 10)])"

declare str_nat.simps [simp del]

definition str_int :: "int \<Rightarrow> string" where
  "str_int i = (if i < 0 then CHR ''-'' # str_nat (nat (- i)) else str_nat (nat i))"

text \<open>
  \<open>str.strip()\<close> removes the white space of both ends; below code point 256 the white
  space characters are 9..13, 28..32, 133 and 160.
\<close>

definition is_space :: "char \<Rightarrow> bool" where
  "is_space c = (let n = (of_char c :: nat) in
     (9 \<le> n \<and> n \<le> 13) \<or> (28 \<le> n \<and> n \<le> 32) \<or> n = 133 \<or> n = 160)"

definition strip :: "string \<Rightarrow> string" where
  "strip s = rev (dropWhile is_space (rev (dropWhile is_space s)))"

section \<open>Exceptions\<close>

text \<open>
  The exceptions the chat loop can meet. \<open>UnboundLocalError v\<close> is the read of a local
  variable \<open>v\<close> that no assignment has reached, \<open>IndexError\<close> an index into an empty
  list, and \<open>Failure m\<close> any exception raised by an external collaborator (the sqlite
  store, the retriever, an agent), with its message \<open>m\<close>. All of them are subclasses of
  \<open>Exception\<close>. \<open>str_exc\<close> is \<open>str(e)\<close>, in the wording of CPython 3.11 and later.
\<close>

datatype error = UnboundLocalError string | IndexError | Failure string

fun str_exc :: "error \<Rightarrow> string" where
  "str_exc (UnboundLocalError v) =
     ''cannot access local variable '' @ [CHR 0x27] @ v @ [CHR 0x27]
       @ '' where it is not associated with a value''"
| "str_exc IndexError = ''list index out of range''"
| "str_exc (Failure m) = m"

section \<open>The appointment store (init_db.py, app.py)\<close>

text \<open>
  Table \<open>doctors\<close> holds (name, specialization) rows and table \<open>appointments\<close> holds
  (id, doctor, time_slot, patient) rows, \<open>patient\<close> being NULL for an open slot. Every
  query opens its own connection, which can fail: a store is \<open>Inl e\<close> when unreachable
  and \<open>Inr d\<close> when it answers with the tables \<open>d\<close>. Rows are kept in table order.
\<close>

record appointment =
  slot_id :: int
  doctor :: string
  time_slot :: string
  patient :: "string option"

record database =
  doctors :: "(string \<times> string) list"
  appointments :: "appointment list"

type_synonym store = "error + database"

text \<open>A result row (id, doctor, time_slot, specialization) of the slot queries.\<close>

type_synonym slot = "int \<times> string \<times> string \<times> string"

text \<open>SQLite's \<open>LOWER\<close> folds the ASCII letters only.\<close>

definition sql_lower :: "string \<Rightarrow> string" where
  "sql_lower s = map (\<lambda>c. if 65 \<le> (of_char c :: nat) \<and> (of_char c :: nat) \<le> 90 then lower_char c else c) s"

text \<open>
  \<open>appointments a JOIN doctors d ON a.doctor = d.name WHERE a.patient IS NULL\<close>,
  with an extra condition \<open>P\<close> on the doctor and the specialization of the joined row.
\<close>

definition open_slots_where :: "(string \<Rightarrow> string \<Rightarrow> bool) \<Rightarrow> database \<Rightarrow> slot list" where
  "open_slots_where P d =
     concat (map (\<lambda>a. concat (map (\<lambda>(n, spec).
         if doctor a = n \<and> patient a = None \<and> P (doctor a) spec
         then [(slot_id a, doctor a, time_slot a, spec)] else []) (doctors d)))
       (appointments d))"

definition get_all_doctor_names :: "store \<Rightarrow> error + string list" where
  "get_all_doctor_names st =
     (case st of Inl e \<Rightarrow> Inl e | Inr d \<Rightarrow> Inr (map fst (doctors d)))"

text \<open>
  \<open>ORDER BY\<close> is a stable sort of the joined rows on the binary order of the text
  columns (SQLite leaves the order of equal keys open). An empty list of names returns
  before the store is opened.
\<close>

definition get_slots_by_doctors :: "store \<Rightarrow> string list \<Rightarrow> error + slot list" where
  "get_slots_by_doctors st doctor_names =
     (if doctor_names = [] then Inr []
      else case st of Inl e \<Rightarrow> Inl e
        | Inr d \<Rightarrow> Inr (sort_key (\<lambda>(i, doc, t, spec). t)
            (open_slots_where
               (\<lambda>doc spec. list_ex (\<lambda>n. sql_lower doc = sql_lower n) doctor_names) d)))"

text \<open>
  \<open>get_slots_by_specialization\<close>: a specialization that is neither \<open>None\<close> nor empty
  filters on it; otherwise every open slot is returned, by specialization then time.
\<close>

definition get_slots_by_specialization :: "store \<Rightarrow> string option \<Rightarrow> error + slot list" where
  "get_slots_by_specialization st specialization =
     (case st of Inl e \<Rightarrow> Inl e
      | Inr d \<Rightarrow>
          (if specialization \<noteq> None \<and> specialization \<noteq> Some []
           then Inr (sort_key (\<lambda>(i, doc, t, spec). t)
                  (open_slots_where
                     (\<lambda>doc spec. sql_lower spec = sql_lower (the specialization)) d))
           else Inr (sort_key (\<lambda>(i, doc, t, spec). (spec, t))
                  (open_slots_where (\<lambda>doc spec. True) d))))"

definition get_all_doctors_list :: "store \<Rightarrow> error + string" where
  "get_all_doctors_list st =
     (case st of Inl e \<Rightarrow> Inl e
      | Inr d \<Rightarrow>
          (let rows = sort_key (\<lambda>(n, spec). (spec, n)) (doctors d) in
           if rows = [] then Inr ''NO DOCTORS AVAILABLE in the system.''
           else Inr (join ''\<newline>'' (''AVAILABLE DOCTORS IN OUR SYSTEM:'' #
                  map (\<lambda>spec. ''- '' @ spec @ '': ''
                         @ join '', '' (map fst (filter (\<lambda>(n, sp). sp = spec) rows)))
                      (remdups (map snd rows))))))"

section \<open>Conversation entries and doctor-name extraction (app.py)\<close>

record entry =
  role :: string
  content :: string

definition user_entry :: "string \<Rightarrow> entry" where
  "user_entry c = \<lparr>role = ''user'', content = c\<rparr>"

definition assistant_entry :: "string \<Rightarrow> entry" where
  "assistant_entry c = \<lparr>role = ''assistant'', content = c\<rparr>"

text \<open>
  The loop over \<open>reversed(chat_history)\<close>: the first entry met whose role is
  \<open>assistant\<close> is searched for every roster name, and the \<open>break\<close> ends the scan.
\<close>

fun scan_reversed :: "string list \<Rightarrow> entry list \<Rightarrow> string list" where
  "scan_reversed all_doctors [] = []"
| "scan_reversed all_doctors (e # es) =
     (if role e = ''assistant''
      then filter (\<lambda>doctor_name. py_in (lower doctor_name) (lower (content e))) all_doctors
      else scan_reversed all_doctors es)"

definition extract_mentioned_doctors_from_history :: "store \<Rightarrow> entry list \<Rightarrow> error + string list" where
  "extract_mentioned_doctors_from_history st chat_history =
     (case get_all_doctor_names st of Inl e \<Rightarrow> Inl e
      | Inr all_doctors \<Rightarrow> Inr (scan_reversed all_doctors (rev chat_history)))"

section \<open>Pre-fetched slot data (app.py, chat_socket)\<close>

definition slot_line :: "slot \<Rightarrow> string" where
  "slot_line sl = (case sl of (sid, doc, t, spec) \<Rightarrow>
     ''- Slot ID '' @ str_int sid @ '': '' @ doc @ '' ('' @ spec @ '') - '' @ t @ ''\<newline>'')"

text \<open>
  The value of \<open>slots_info\<close> that the sql branch builds from the medical buffer and the
  store. Each store query can raise; the exception leaves the branch.
\<close>

definition slots_info :: "store \<Rightarrow> entry list \<Rightarrow> error + string" where
  "slots_info st chat_history =
     (case extract_mentioned_doctors_from_history st chat_history of
        Inl e \<Rightarrow> Inl e
      | Inr mentioned_doctors \<Rightarrow>
          if mentioned_doctors \<noteq> [] then
            (case get_slots_by_doctors st mentioned_doctors of
               Inl e \<Rightarrow> Inl e
             | Inr slots \<Rightarrow>
                 if slots \<noteq> [] then
                   Inr (''AVAILABLE SLOTS FOR '' @ join '', '' mentioned_doctors @ '':\<newline>''
                        @ concat (map slot_line slots))
                 else
                   (case get_slots_by_specialization st None of
                      Inl e \<Rightarrow> Inl e
                    | Inr all_slots \<Rightarrow>
                        if all_slots \<noteq> [] then
                          Inr (''No slots available for '' @ join '', '' mentioned_doctors
                               @ ''. Here are ALL available slots:\<newline>''
                               @ concat (map slot_line all_slots))
                        else Inr ''No appointment slots available at the moment.''))
          else
            (case get_slots_by_specialization st None of
               Inl e \<Rightarrow> Inl e
             | Inr all_slots \<Rightarrow>
                 if all_slots \<noteq> [] then
                   Inr (''ALL AVAILABLE SLOTS:\<newline>'' @ concat (map slot_line all_slots))
                 else Inr ''No appointment slots available at the moment.''))"

definition context_prefix :: "string \<Rightarrow> string" where
  "context_prefix info =
     ''[PRE-FETCHED SLOTS DATA - USE THIS EXACTLY, DO NOT QUERY AGAIN]:\<newline>'' @ info
       @ ''\<newline>\<newline>User says: ''"

section \<open>Conversation buffers\<close>

text \<open>
  \<open>xs[-n:]\<close> for an integer \<open>n\<close>: the last \<open>n\<close> elements when \<open>n\<close> is positive; the
  start index \<open>-n\<close> is not negative otherwise, so \<open>xs[-0:]\<close> is the whole list.
\<close>

definition last_slice :: "int \<Rightarrow> 'a list \<Rightarrow> 'a list" where
  "last_slice n xs = (if 0 < n then drop (length xs - nat n) xs else drop (nat (- n)) xs)"

text \<open>\<open>if len(h) > CHAT_BUFFER: h[:] = h[-CHAT_BUFFER:]\<close>.\<close>

definition truncate_buffer :: "int \<Rightarrow> 'a list \<Rightarrow> 'a list" where
  "truncate_buffer CHAT_BUFFER h = (if int (length h) > CHAT_BUFFER then last_slice CHAT_BUFFER h else h)"

text \<open>\<open>parse_results\<close> (helper.py): the message list and the content of its last message.\<close>

definition parse_results :: "entry list \<Rightarrow> error + (entry list \<times> string)" where
  "parse_results messages =
     (if messages = [] then Inl IndexError else Inr (messages, content (last messages)))"

section \<open>Transcript logger (app.py)\<close>

record datetime =
  dt_day :: nat
  dt_month :: nat
  dt_year :: nat
  dt_hour :: nat
  dt_minute :: nat
  dt_second :: nat

definition zfill :: "nat \<Rightarrow> string \<Rightarrow> string" where
  "zfill w s = replicate (w - length s) (CHR ''0'') @ s"

text \<open>\<open>strftime("%d-%m-%Y %H:%M:%S")\<close>.\<close>

definition strftime :: "datetime \<Rightarrow> string" where
  "strftime t =
     zfill 2 (str_nat (dt_day t)) @ ''-'' @ zfill 2 (str_nat (dt_month t)) @ ''-''
       @ zfill 4 (str_nat (dt_year t)) @ '' '' @ zfill 2 (str_nat (dt_hour t)) @ '':''
       @ zfill 2 (str_nat (dt_minute t)) @ '':'' @ zfill 2 (str_nat (dt_second t))"

text \<open>
  The chat history folder: a map from file name to content. The file of a user is named
  after the lower-cased user name.
\<close>

type_synonym folder = "string \<Rightarrow> string option"

definition history_path :: "string \<Rightarrow> string" where
  "history_path user_name = lower user_name @ ''.txt''"

definition transcript_line :: "datetime \<Rightarrow> string \<Rightarrow> string \<Rightarrow> string" where
  "transcript_line now who message =
     ''['' @ strftime now @ ''] '' @ who @ '': '' @ message @ ''\<newline>\<newline>''"

text \<open>Opening in mode \<open>'a'\<close> creates the file when absent and writes at its end.\<close>

definition save_chat_message :: "datetime \<Rightarrow> string \<Rightarrow> string \<Rightarrow> string \<Rightarrow> folder \<Rightarrow> folder" where
  "save_chat_message now who message user_name fs =
     fs(history_path user_name \<mapsto>
          (case fs (history_path user_name) of None \<Rightarrow> [] | Some old \<Rightarrow> old)
            @ transcript_line now who message)"

text \<open>
  \<open>ensure_user_chat_history_exists\<close> leaves an existing file alone and otherwise opens
  the path for writing, which creates an empty file or raises: the file system refuses a
  path whose directory does not exist (a user name with a path separator) or that it
  cannot represent. \<open>open_w\<close> is that answer of the file system: \<open>None\<close> when the path
  can be created, \<open>Some e\<close> when \<open>open\<close> raises \<open>e\<close>.
\<close>

definition ensure_user_chat_history_exists ::
  "(string \<Rightarrow> error option) \<Rightarrow> string \<Rightarrow> folder \<Rightarrow> error + folder" where
  "ensure_user_chat_history_exists open_w user_name fs =
     (case fs (history_path user_name) of
        Some old \<Rightarrow> Inr fs
      | None \<Rightarrow>
          (case open_w (history_path user_name) of
             Some e \<Rightarrow> Inl e
           | None \<Rightarrow> Inr (fs(history_path user_name \<mapsto> []))))"

text \<open>
  Reading a file in text mode translates \<open>\r\n\<close> and a lone \<open>\r\<close> to \<open>\n\<close>
  (universal newlines).
\<close>

fun universal_newlines :: "string \<Rightarrow> string" where
  "universal_newlines (a # b # s) =
     (if a = CHR 0x0D \<and> b = CHR 0x0A then CHR 0x0A # universal_newlines s
      else if a = CHR 0x0D then CHR 0x0A # universal_newlines (b # s)
      else a # universal_newlines (b # s))"
| "universal_newlines [a] = (if a = CHR 0x0D then [CHR 0x0A] else [a])"
| "universal_newlines [] = []"

definition read_text :: "folder \<Rightarrow> string \<Rightarrow> string option" where
  "read_text fs path = map_option universal_newlines (fs path)"

section \<open>Reading the transcript back (app.py, api_chat_history)\<close>

text \<open>
  The history API finds every match of the pattern
  \<^verbatim>\<open>\[(\d{2}-\d{2}-\d{4} \d{2}:\d{2}:\d{2})\] (user|bot): (.+?)(?=\n\[|\Z)\<close>
  with \<open>re.DOTALL\<close>. The matcher below is that pattern, piece by piece: a bracket, the
  nineteen characters of the time stamp, \<open>"] "\<close>, one of the two roles, \<open>": "\<close>, and the
  shortest non-empty text after which the input ends or continues with a newline and
  an opening bracket. \<open>findall\<close> scans from the left, resumes after a match and steps
  one character where there is none.
\<close>

definition is_digit :: "char \<Rightarrow> bool" where
  "is_digit c = (48 \<le> (of_char c :: nat) \<and> (of_char c :: nat) \<le> 57)"

datatype atom = Digit | Lit char

fun match_atoms :: "atom list \<Rightarrow> string \<Rightarrow> (string \<times> string) option" where
  "match_atoms [] s = Some ([], s)"
| "match_atoms (a # as) [] = None"
| "match_atoms (a # as) (c # s) =
     (if (case a of Digit \<Rightarrow> is_digit c | Lit x \<Rightarrow> c = x)
      then (case match_atoms as s of None \<Rightarrow> None | Some (m, rest) \<Rightarrow> Some (c # m, rest))
      else None)"

definition timestamp_atoms :: "atom list" where
  "timestamp_atoms =
     [Digit, Digit, Lit (CHR ''-''), Digit, Digit, Lit (CHR ''-''), Digit, Digit, Digit, Digit,
      Lit (CHR '' ''), Digit, Digit, Lit (CHR '':''), Digit, Digit, Lit (CHR '':''), Digit, Digit]"

fun strip_prefix :: "string \<Rightarrow> string \<Rightarrow> string option" where
  "strip_prefix [] s = Some s"
| "strip_prefix (p # ps) [] = None"
| "strip_prefix (p # ps) (c # s) = (if p = c then strip_prefix ps s else None)"

definition match_role :: "string \<Rightarrow> (string \<times> string) option" where
  "match_role s =
     (case strip_prefix ''user'' s of Some rest \<Rightarrow> Some (''user'', rest)
      | None \<Rightarrow> (case strip_prefix ''bot'' s of Some rest \<Rightarrow> Some (''bot'', rest) | None \<Rightarrow> None))"

fun lazy_dot :: "string \<Rightarrow> (string \<times> string) option" where
  "lazy_dot [] = None"
| "lazy_dot (c # s) =
     (if s = [] \<or> prefix ''\<newline>['' s then Some ([c], s)
      else (case lazy_dot s of None \<Rightarrow> None | Some (m, rest) \<Rightarrow> Some (c # m, rest)))"

definition match_here :: "string \<Rightarrow> ((string \<times> string \<times> string) \<times> string) option" where
  "match_here s =
     (case strip_prefix ''['' s of None \<Rightarrow> None
      | Some s1 \<Rightarrow>
     (case match_atoms timestamp_atoms s1 of None \<Rightarrow> None
      | Some (ts, s2) \<Rightarrow>
     (case strip_prefix ''] '' s2 of None \<Rightarrow> None
      | Some s3 \<Rightarrow>
     (case match_role s3 of None \<Rightarrow> None
      | Some (who, s4) \<Rightarrow>
     (case strip_prefix '': '' s4 of None \<Rightarrow> None
      | Some s5 \<Rightarrow>
     (case lazy_dot s5 of None \<Rightarrow> None
      | Some (text, rest) \<Rightarrow> Some ((ts, who, text), rest)))))))"

function findall :: "string \<Rightarrow> (string \<times> string \<times> string) list" where
  "findall [] = []"
| "findall (c # s) =
     (case match_here (c # s) of
        None \<Rightarrow> findall s
      | Some (m, rest) \<Rightarrow> m # findall rest)"
  by pat_completeness auto
termination
proof (relation "measure length")
  show "wf (measure length)" by simp
next
  fix c :: char and s :: string
  show "(s, c # s) \<in> measure length" by simp
next
  fix c :: char and s :: string and x2 :: "(string \<times> string \<times> string) \<times> string"
    and m :: "string \<times> string \<times> string" and rest :: string
  assume h: "match_here (c # s) = Some x2" "(m, rest) = x2"
  have sp: "\<And>p u v. strip_prefix p u = Some v \<Longrightarrow> length v \<le> length u"
  proof -
    fix p u v show "strip_prefix p u = Some v \<Longrightarrow> length v \<le> length u"
      by (induction p u rule: strip_prefix.induct) (auto split: if_splits)
  qed
  have ma: "\<And>as u mm v. match_atoms as u = Some (mm, v) \<Longrightarrow> length v \<le> length u"
  proof -
    fix as u mm v show "match_atoms as u = Some (mm, v) \<Longrightarrow> length v \<le> length u"
      by (induction as u arbitrary: mm rule: match_atoms.induct)
         (auto split: if_splits option.splits)
  qed
  have ld: "\<And>u mm v. lazy_dot u = Some (mm, v) \<Longrightarrow> length v < length u"
  proof -
    fix u mm v show "lazy_dot u = Some (mm, v) \<Longrightarrow> length v < length u"
      by (induction u arbitrary: mm) (auto split: if_splits option.splits)
  qed
  have mr: "\<And>u w v. match_role u = Some (w, v) \<Longrightarrow> length v \<le> length u"
    by (auto simp: match_role_def split: option.splits dest: sp)
  from h have "match_here (c # s) = Some (m, rest)" by simp
  then have "length rest < length (c # s)"
    unfolding match_here_def
    by (auto simp del: strip_prefix.simps split: option.splits dest!: sp ma ld mr)
  then show "(rest, c # s) \<in> measure length" by simp
qed

text \<open>
  The endpoint for a user: no file gives no messages; otherwise the groups of every
  match, the text stripped.
\<close>

definition api_chat_history :: "folder \<Rightarrow> string \<Rightarrow> (string \<times> string \<times> string) list" where
  "api_chat_history fs current_user_name =
     (case read_text fs (history_path current_user_name) of
        None \<Rightarrow> []
      | Some c \<Rightarrow> map (\<lambda>(timestamp, who, text). (timestamp, who, strip text)) (findall c))"

section \<open>External collaborators\<close>

text \<open>
  What the world answers while one inbound message is handled: the store, the FAISS
  retriever (\<open>None\<close> when the document agent failed to load), the summary model, the
  two agents and the clock at the two log calls. An agent maps the message list it is
  given to the message list of its result, or raises. \<open>user_appointments\<close> is
  \<open>get_user_appointments\<close>, which catches its own exceptions and always returns a text.
\<close>

record world =
  db :: store
  doc_retriever :: "(string \<Rightarrow> error + string list) option"
  summary_llm :: "string \<Rightarrow> error + string"
  user_appointments :: "string \<Rightarrow> string"
  sql_agent_invoke :: "entry list \<Rightarrow> error + entry list"
  agent_invoke :: "entry list \<Rightarrow> error + entry list"
  time_received :: datetime
  time_replied :: datetime

section \<open>Summary agent (summary_agent.py)\<close>

definition read_chat_history_from_file :: "folder \<Rightarrow> string \<Rightarrow> string" where
  "read_chat_history_from_file fs user_name =
     (case read_text fs (history_path user_name) of None \<Rightarrow> [] | Some c \<Rightarrow> c)"

definition summary_request :: "string \<Rightarrow> string \<Rightarrow> string" where
  "summary_request appts conversation_text =
     ''Please analyze the following conversation and provide a structured consultation summary.''
       @ ''\<newline>\<newline>CURRENT USER APPOINTMENTS (from database): '' @ appts
       @ ''\<newline>\<newline>CONVERSATION HISTORY:\<newline>'' @ conversation_text"

definition generate_consultation_summary :: "world \<Rightarrow> folder \<Rightarrow> string \<Rightarrow> string" where
  "generate_consultation_summary w fs user_name =
     (let conversation_text = read_chat_history_from_file fs user_name in
      if strip conversation_text = [] then ''No consultation history available to summarize.''
      else (case summary_llm w (summary_request (user_appointments w user_name) conversation_text) of
              Inl e \<Rightarrow> ''Error generating summary: '' @ str_exc e
            | Inr r \<Rightarrow> r))"

section \<open>The WebSocket chat loop (app.py, chat_socket)\<close>

text \<open>
  The local variables of \<open>chat_socket\<close> and what it has done so far. \<open>response\<close> is
  \<open>None\<close> until an assignment reaches it; \<open>sql_agent_bound\<close> and \<open>agent_bound\<close>
  say whether the two agent variables were assigned when the socket opened. \<open>sent\<close>
  lists the frames sent to the client, and \<open>calls\<close> the invocations of the three
  services with their arguments, both in order.
\<close>

datatype call = SummaryCall string | SqlAgentCall "entry list" | LlmAgentCall "entry list"

record state =
  chat_history :: "entry list"
  sql_chat_history :: "entry list"
  response :: "string option"
  sql_agent_bound :: bool
  agent_bound :: bool
  current_ws_user_name :: string
  files :: folder
  sent :: "string list"
  calls :: "call list"

text \<open>
  Each branch of the \<open>try\<close> block returns the exception that left it, if any, with the
  state as the branch left it: what was assigned before a \<open>raise\<close> stays assigned.
\<close>

definition summary_branch :: "world \<Rightarrow> state \<Rightarrow> error option \<times> state" where
  "summary_branch w s =
     (None, s\<lparr>calls := calls s @ [SummaryCall (current_ws_user_name s)],
              response := Some (generate_consultation_summary w (files s) (current_ws_user_name s))\<rparr>)"

definition sql_branch :: "int \<Rightarrow> world \<Rightarrow> string \<Rightarrow> state \<Rightarrow> error option \<times> state" where
  "sql_branch CHAT_BUFFER w msg s =
     (if any_in [''slot'', ''available'', ''show'', ''see''] (lower msg) then
        (case slots_info (db w) (chat_history s) of
           Inl e \<Rightarrow> (Some e, s)
         | Inr info \<Rightarrow>
             (let message_for_agent = context_prefix info @ msg;
                  s1 = s\<lparr>sql_chat_history :=
                         truncate_buffer CHAT_BUFFER (sql_chat_history s @ [user_entry message_for_agent])\<rparr>
              in if \<not> sql_agent_bound s1 then (Some (UnboundLocalError ''sql_agent''), s1)
                 else
                   (let s2 = s1\<lparr>calls := calls s1 @ [SqlAgentCall (sql_chat_history s1)]\<rparr>
                    in case sql_agent_invoke w (sql_chat_history s1) of
                         Inl e \<Rightarrow> (Some e, s2)
                       | Inr messages \<Rightarrow>
                           (case parse_results messages of
                              Inl e \<Rightarrow> (Some e, s2)
                            | Inr (h, r) \<Rightarrow>
                                (None, s2\<lparr>sql_chat_history := h @ [assistant_entry r],
                                          response := Some r\<rparr>)))))
      else (None, s))"

definition search_medical_info :: "(string \<Rightarrow> error + string list) \<Rightarrow> string \<Rightarrow> error + string" where
  "search_medical_info retriever query =
     (case retriever query of
        Inl e \<Rightarrow> Inl e
      | Inr docs \<Rightarrow>
          if docs \<noteq> [] then Inr (join ''\<newline>\<newline>'' docs)
          else Inr ''No relevant medical information found.'')"

definition faiss_context :: "world \<Rightarrow> string \<Rightarrow> error + string option" where
  "faiss_context w msg =
     (case doc_retriever w of
        None \<Rightarrow> Inr None
      | Some retriever \<Rightarrow>
          if strip msg = [] then Inr None
          else (case search_medical_info retriever msg of Inl e \<Rightarrow> Inl e | Inr c \<Rightarrow> Inr (Some c)))"

definition enhanced_msg :: "string \<Rightarrow> string \<Rightarrow> string option \<Rightarrow> string" where
  "enhanced_msg msg doctors_list ctx =
     msg @ ''\<newline>\<newline>[SYSTEM - DOCTORS DATABASE]:\<newline>'' @ doctors_list @ ''\<newline>\<newline>''
       @ (case ctx of
            None \<Rightarrow> []
          | Some c \<Rightarrow>
              if c \<noteq> [] \<and> \<not> py_in ''No relevant'' c
              then ''[SYSTEM - MEDICAL KNOWLEDGE BASE]:\<newline>'' @ c @ ''\<newline>\<newline>'' else [])
       @ ''INSTRUCTIONS: Based on the user's symptoms, choose the most appropriate doctor from the list above and give him a hint base on the symptoms and medical knowledge base.''"

definition medical_branch :: "int \<Rightarrow> world \<Rightarrow> string \<Rightarrow> state \<Rightarrow> error option \<times> state" where
  "medical_branch CHAT_BUFFER w msg s =
     (case get_all_doctors_list (db w) of
        Inl e \<Rightarrow> (Some e, s)
      | Inr doctors_list \<Rightarrow>
          (case faiss_context w msg of
             Inl e \<Rightarrow> (Some e, s)
           | Inr ctx \<Rightarrow>
               (let s1 = s\<lparr>chat_history :=
                          truncate_buffer CHAT_BUFFER
                            (chat_history s @ [user_entry (enhanced_msg msg doctors_list ctx)])\<rparr>
                in if \<not> agent_bound s1 then (Some (UnboundLocalError ''agent''), s1)
                   else
                     (let s2 = s1\<lparr>calls := calls s1 @ [LlmAgentCall (chat_history s1)]\<rparr>
                      in case agent_invoke w (chat_history s1) of
                           Inl e \<Rightarrow> (Some e, s2)
                         | Inr messages \<Rightarrow>
                             (case parse_results messages of
                                Inl e \<Rightarrow> (Some e, s2)
                              | Inr (h, r) \<Rightarrow>
                                  (None, s2\<lparr>chat_history := h @ [assistant_entry r],
                                            response := Some r\<rparr>))))))"

text \<open>The router by keywords, as the \<open>if\<close>/\<open>elif\<close>/\<open>else\<close> of the \<open>try\<close> block.\<close>

definition dispatch :: "int \<Rightarrow> world \<Rightarrow> string \<Rightarrow> state \<Rightarrow> error option \<times> state" where
  "dispatch CHAT_BUFFER w msg s =
     (case route msg of
        Summary \<Rightarrow> summary_branch w s
      | SqlAgent \<Rightarrow> sql_branch CHAT_BUFFER w msg s
      | MedicalQa \<Rightarrow> medical_branch CHAT_BUFFER w msg s)"

text \<open>
  The two statements after the router: the bot line is logged and the response is sent.
  Reading \<open>response\<close> raises when nothing was ever assigned to it.
\<close>

definition save_and_send :: "world \<Rightarrow> state \<Rightarrow> error option \<times> state" where
  "save_and_send w s =
     (case response s of
        None \<Rightarrow> (Some (UnboundLocalError ''response''), s)
      | Some r \<Rightarrow>
          (None, s\<lparr>files := save_chat_message (time_replied w) ''bot'' r (current_ws_user_name s) (files s),
                   sent := sent s @ [r]\<rparr>))"

definition try_block :: "int \<Rightarrow> world \<Rightarrow> string \<Rightarrow> state \<Rightarrow> error option \<times> state" where
  "try_block CHAT_BUFFER w msg s =
     (case dispatch CHAT_BUFFER w msg s of
        (Some e, s') \<Rightarrow> (Some e, s')
      | (None, s') \<Rightarrow> save_and_send w s')"

text \<open>
  One turn of the \<open>while\<close> loop for a received message: the user line is logged, the
  \<open>try\<close> block runs, and \<open>except Exception\<close> sends the error text.
\<close>

definition on_message :: "int \<Rightarrow> world \<Rightarrow> string \<Rightarrow> state \<Rightarrow> state" where
  "on_message CHAT_BUFFER w msg s =
     (let s0 = s\<lparr>files := save_chat_message (time_received w) ''user'' msg (current_ws_user_name s) (files s)\<rparr>
      in case try_block CHAT_BUFFER w msg s0 of
           (None, s') \<Rightarrow> s'
         | (Some e, s') \<Rightarrow> s'\<lparr>sent := sent s' @ [''Bot Error: '' @ str_exc e]\<rparr>)"

text \<open>
  The loop over the inbound messages, each with the world that answers it; the end of
  the list is the \<open>None\<close> that \<open>ws.receive()\<close> returns on disconnect.
\<close>

fun chat_loop :: "int \<Rightarrow> state \<Rightarrow> (string \<times> world) list \<Rightarrow> state" where
  "chat_loop CHAT_BUFFER s [] = s"
| "chat_loop CHAT_BUFFER s ((msg, w) # inbound) = chat_loop CHAT_BUFFER (on_message CHAT_BUFFER w msg s) inbound"

text \<open>
  Opening the socket. The agents are created only when the query string carries a
  non-empty user name, the sql agent first; an exception of either constructor is
  caught and leaves the later variables unassigned. Making sure the history file exists
  is outside every \<open>try\<close>: when it raises, \<open>chat_socket\<close> ends with that exception
  before the greeting is sent and before any message is received.
\<close>

definition greeting :: string where
  "greeting = ''Bot: Hello! I'm ready to assist you. I can help with medical questions and manage your appointments.''"

definition connect ::
  "(string \<Rightarrow> error option) \<Rightarrow> string \<Rightarrow> string option \<Rightarrow> bool \<Rightarrow> bool \<Rightarrow> folder \<Rightarrow> error + state" where
  "connect open_w USER_NAME username_param sql_init_ok llm_init_ok fs =
     (let named = (username_param \<noteq> None \<and> username_param \<noteq> Some []);
          name = (if named then the username_param else USER_NAME)
      in case ensure_user_chat_history_exists open_w name fs of
           Inl e \<Rightarrow> Inl e
         | Inr fs' \<Rightarrow>
             Inr \<lparr>chat_history = [], sql_chat_history = [], response = None,
                  sql_agent_bound = (named \<and> sql_init_ok),
                  agent_bound = (named \<and> sql_init_ok \<and> llm_init_ok),
                  current_ws_user_name = name,
                  files = fs',
                  sent = [greeting],
                  calls = []\<rparr>)"

definition chat_socket ::
  "int \<Rightarrow> (string \<Rightarrow> error option) \<Rightarrow> string \<Rightarrow> string option \<Rightarrow> bool \<Rightarrow> bool \<Rightarrow> folder
     \<Rightarrow> (string \<times> world) list \<Rightarrow> error + state" where
  "chat_socket CHAT_BUFFER open_w USER_NAME username_param sql_init_ok llm_init_ok fs inbound =
     (case connect open_w USER_NAME username_param sql_init_ok llm_init_ok fs of
        Inl e \<Rightarrow> Inl e
      | Inr s \<Rightarrow> Inr (chat_loop CHAT_BUFFER s inbound))"

section \<open>Notions used in the statements\<close>

text \<open>A call is within the bound when the buffer it passes has at most \<open>CHAT_BUFFER\<close> entries.\<close>

definition call_within :: "int \<Rightarrow> call \<Rightarrow> bool" where
  "call_within CHAT_BUFFER c =
     (case c of SummaryCall u \<Rightarrow> True
      | SqlAgentCall b \<Rightarrow> int (length b) \<le> CHAT_BUFFER
      | LlmAgentCall b \<Rightarrow> int (length b) \<le> CHAT_BUFFER)"

text \<open>Writing a sequence of (time, role, text) triples through the logger, in order.\<close>

fun log_all :: "(datetime \<times> string \<times> string) list \<Rightarrow> string \<Rightarrow> folder \<Rightarrow> folder" where
  "log_all [] user_name fs = fs"
| "log_all ((now, who, message) # rest) user_name fs =
     log_all rest user_name (save_chat_message now who message user_name fs)"

text \<open>The dates and times a \<open>datetime\<close> can hold from the year 1000 on.\<close>

definition valid_datetime :: "datetime \<Rightarrow> bool" where
  "valid_datetime t =
     (1 \<le> dt_day t \<and> dt_day t \<le> 31 \<and> 1 \<le> dt_month t \<and> dt_month t \<le> 12
      \<and> 1000 \<le> dt_year t \<and> dt_year t \<le> 9999
      \<and> dt_hour t \<le> 23 \<and> dt_minute t \<le> 59 \<and> dt_second t \<le> 59)"

section \<open>Example data\<close>

definition example_db :: database where
  "example_db = \<lparr>doctors = [(''Dr. Fontana'', ''Cardiology''), (''Dr. Moretti'', ''Dermatology''),
                              (''Dr. Ricci'', ''Neurology'')],
                  appointments = [\<lparr>slot_id = 7, doctor = ''Dr. Fontana'', time_slot = ''2025-01-10 09:00'', patient = None\<rparr>,
                                  \<lparr>slot_id = 8, doctor = ''Dr. Ricci'', time_slot = ''2025-01-10 10:00'', patient = Some ''Mario Rossi''\<rparr>]\<rparr>"

definition booked_db :: database where
  "booked_db = \<lparr>doctors = [(''Dr. Ricci'', ''Neurology'')],
                 appointments = [\<lparr>slot_id = 8, doctor = ''Dr. Ricci'', time_slot = ''2025-01-10 10:00'', patient = Some ''Mario Rossi''\<rparr>]\<rparr>"

definition example_world :: world where
  "example_world =
     \<lparr>db = Inr example_db,
      doc_retriever = None,
      summary_llm = (\<lambda>request. Inr ''Summary: headache discussed.''),
      user_appointments = (\<lambda>user_name. ''None''),
      sql_agent_invoke = (\<lambda>h. Inr (h @ [\<lparr>role = ''ai'', content = ''Here are the slots.''\<rparr>])),
      agent_invoke = (\<lambda>h. Inr (h @ [\<lparr>role = ''ai'', content = ''Please see Dr. Ricci''\<rparr>])),
      time_received = \<lparr>dt_day = 4, dt_month = 11, dt_year = 2026, dt_hour = 9, dt_minute = 30, dt_second = 0\<rparr>,
      time_replied = \<lparr>dt_day = 4, dt_month = 11, dt_year = 2026, dt_hour = 9, dt_minute = 30, dt_second = 7\<rparr>\<rparr>"

definition failing_world :: world where
  "failing_world =
     example_world\<lparr>sql_agent_invoke := (\<lambda>h. Inl (Failure ''connection refused'')),
                   agent_invoke := (\<lambda>h. Inl (Failure ''connection refused''))\<rparr>"

text \<open>
  The state in which the loop starts when the socket is opened with the user name
  "Mario Rossi", both agents are created and the history folder is empty.
\<close>

definition example_start :: state where
  "example_start =
     \<lparr>chat_history = [], sql_chat_history = [], response = None,
      sql_agent_bound = True, agent_bound = True,
      current_ws_user_name = ''Mario Rossi'',
      files = [history_path ''Mario Rossi'' \<mapsto> []],
      sent = [greeting],
      calls = []\<rparr>"

text \<open>The same session later, with two entries in each buffer.\<close>

definition example_later :: state where
  "example_later =
     example_start\<lparr>chat_history := [user_entry ''a'', assistant_entry ''b''],
                   sql_chat_history := [user_entry ''c'', assistant_entry ''d'']\<rparr>"

section \<open>Opening the socket\<close>

lemma connect_example:
  "connect (\<lambda>path. None) ''Guest'' (Some ''Mario Rossi'') True True Map.empty = Inr example_start"
  by (simp add: connect_def ensure_user_chat_history_exists_def example_start_def Let_def)

lemma connect_refused:
  assumes "name \<noteq> []" and "fs (history_path name) = None"
    and "open_w (history_path name) = Some e"
  shows "chat_socket cb open_w USER_NAME (Some name) sql_ok llm_ok fs inbound = Inl e"
  using assms
  by (simp add: chat_socket_def connect_def ensure_user_chat_history_exists_def Let_def)

section \<open>Properties of the router\<close>

lemma py_in_iff: "py_in k s \<longleftrightarrow> (\<exists>ps ss. s = ps @ k @ ss)"
proof (induction s)
  case Nil
  then show ?case by auto
next
  case (Cons c s)
  show ?case
  proof
    assume "py_in k (c # s)"
    then consider "prefix k (c # s)" | "py_in k s" by auto
    then show "\<exists>ps ss. c # s = ps @ k @ ss"
    proof cases
      case 1
      then obtain ss where "c # s = k @ ss" by (auto simp: prefix_def)
      then have "c # s = [] @ k @ ss" by simp
      then show ?thesis by blast
    next
      case 2
      with Cons.IH obtain ps ss where "s = ps @ k @ ss" by blast
      then have "c # s = (c # ps) @ k @ ss" by simp
      then show ?thesis by blast
    qed
  next
    assume "\<exists>ps ss. c # s = ps @ k @ ss"
    then obtain ps ss where e: "c # s = ps @ k @ ss" by blast
    show "py_in k (c # s)"
    proof (cases ps)
      case Nil
      with e have "prefix k (c # s)" by (simp add: prefix_def)
      then show ?thesis by simp
    next
      case (Cons p ps')
      with e have "s = ps' @ k @ ss" by simp
      with Cons.IH have "py_in k s" by blast
      then show ?thesis by simp
    qed
  qed
qed

lemma any_in_iff: "any_in ks s \<longleftrightarrow> (\<exists>k\<in>set ks. \<exists>ps ss. s = ps @ k @ ss)"
  by (simp add: any_in_def list_ex_iff py_in_iff)

text \<open>
  C3. The router lower-cases the message and returns Summary if some summary keyword is
  a substring of it, otherwise SqlAgent if some sql keyword is a substring, otherwise
  MedicalQa. So a message with both kinds of keyword is Summary, and a message with
  neither is MedicalQa. The router is a total function of the message alone.
\<close>

theorem route_by_keywords:
  "route msg =
     (if \<exists>k\<in>set SUMMARY_AGENT_KEYWORDS. \<exists>ps ss. lower msg = ps @ k @ ss then Summary
      else if \<exists>k\<in>set SQL_AGENT_KEYWORDS. \<exists>ps ss. lower msg = ps @ k @ ss then SqlAgent
      else MedicalQa)"
  by (simp add: route_def should_use_summary_agent_def should_use_sql_agent_def any_in_iff)

theorem route_by_keywords_witness:
  "route ''Recap my booking'' = Summary
   \<and> route ''Book Dr. Ricci'' = SqlAgent
   \<and> route ''I have a headache'' = MedicalQa"
proof -
  have a: "\<exists>k\<in>set SUMMARY_AGENT_KEYWORDS. \<exists>ps ss. lower ''Recap my booking'' = ps @ k @ ss"
    unfolding any_in_iff [symmetric]
    by (simp add: any_in_def SUMMARY_AGENT_KEYWORDS_def lower_def is_upper_def)
  have b1: "\<not> (\<exists>k\<in>set SUMMARY_AGENT_KEYWORDS. \<exists>ps ss. lower ''Book Dr. Ricci'' = ps @ k @ ss)"
    unfolding any_in_iff [symmetric]
    by (simp add: any_in_def SUMMARY_AGENT_KEYWORDS_def lower_def is_upper_def)
  have b2: "\<exists>k\<in>set SQL_AGENT_KEYWORDS. \<exists>ps ss. lower ''Book Dr. Ricci'' = ps @ k @ ss"
    unfolding any_in_iff [symmetric]
    by (simp add: any_in_def SQL_AGENT_KEYWORDS_def lower_def is_upper_def)
  have c1: "\<not> (\<exists>k\<in>set SUMMARY_AGENT_KEYWORDS. \<exists>ps ss. lower ''I have a headache'' = ps @ k @ ss)"
    unfolding any_in_iff [symmetric]
    by (simp add: any_in_def SUMMARY_AGENT_KEYWORDS_def lower_def is_upper_def)
  have c2: "\<not> (\<exists>k\<in>set SQL_AGENT_KEYWORDS. \<exists>ps ss. lower ''I have a headache'' = ps @ k @ ss)"
    unfolding any_in_iff [symmetric]
    by (simp add: any_in_def SQL_AGENT_KEYWORDS_def lower_def is_upper_def)
  from a have "route ''Recap my booking'' = Summary"
    using route_by_keywords [of "''Recap my booking''"] by presburger
  moreover from b1 b2 have "route ''Book Dr. Ricci'' = SqlAgent"
    using route_by_keywords [of "''Book Dr. Ricci''"] by presburger
  moreover from c1 c2 have "route ''I have a headache'' = MedicalQa"
    using route_by_keywords [of "''I have a headache''"] by presburger
  ultimately show ?thesis by blast
qed

section \<open>Doctor-name extraction\<close>

lemma scan_reversed_skip:
  "\<forall>x\<in>set xs. role x \<noteq> ''assistant'' \<Longrightarrow> scan_reversed ds (xs @ ys) = scan_reversed ds ys"
  by (induction xs) auto

lemma scan_reversed_none:
  "\<forall>x\<in>set xs. role x \<noteq> ''assistant'' \<Longrightarrow> scan_reversed ds xs = []"
  by (induction xs) auto

text \<open>
  C4. Extraction looks at the history from its end and reads one entry only, the most
  recent one whose role is assistant: whatever comes before it has no influence. The
  result is the roster names that occur in that entry, both sides lower-cased, in the
  order of the roster. A history without an assistant entry gives the empty list.
\<close>

theorem extract_last_assistant_only:
  "(role e = ''assistant'' \<and> (\<forall>x\<in>set post. role x \<noteq> ''assistant'') \<longrightarrow>
      extract_mentioned_doctors_from_history (Inr d) (pre @ e # post) =
        Inr (filter (\<lambda>n. \<exists>ps ss. lower (content e) = ps @ lower n @ ss) (map fst (doctors d))))
   \<and> ((\<forall>x\<in>set h. role x \<noteq> ''assistant'') \<longrightarrow>
      extract_mentioned_doctors_from_history (Inr d) h = Inr [])"
proof (intro conjI impI)
  assume a: "role e = ''assistant'' \<and> (\<forall>x\<in>set post. role x \<noteq> ''assistant'')"
  then have "\<forall>x\<in>set (rev post). role x \<noteq> ''assistant''" by simp
  then have "scan_reversed (map fst (doctors d)) (rev post @ e # rev pre)
             = scan_reversed (map fst (doctors d)) (e # rev pre)"
    by (rule scan_reversed_skip)
  with a show "extract_mentioned_doctors_from_history (Inr d) (pre @ e # post) =
        Inr (filter (\<lambda>n. \<exists>ps ss. lower (content e) = ps @ lower n @ ss) (map fst (doctors d)))"
    by (simp add: extract_mentioned_doctors_from_history_def get_all_doctor_names_def py_in_iff)
next
  assume "\<forall>x\<in>set h. role x \<noteq> ''assistant''"
  then have "\<forall>x\<in>set (rev h). role x \<noteq> ''assistant''" by simp
  then have "scan_reversed (map fst (doctors d)) (rev h) = []" by (rule scan_reversed_none)
  then show "extract_mentioned_doctors_from_history (Inr d) h = Inr []"
    by (simp add: extract_mentioned_doctors_from_history_def get_all_doctor_names_def)
qed

theorem extract_last_assistant_only_witness:
  "extract_mentioned_doctors_from_history (Inr example_db)
     ([assistant_entry ''Please see Dr. Ricci''] @ assistant_entry ''I recommend Dr. Moretti or DR. FONTANA''
        # [user_entry ''thanks, dr. ricci?''])
     = Inr [''Dr. Fontana'', ''Dr. Moretti'']
   \<and> extract_mentioned_doctors_from_history (Inr example_db) [user_entry ''Dr. Ricci please''] = Inr []"
proof -
  let ?e = "assistant_entry ''I recommend Dr. Moretti or DR. FONTANA''"
  let ?post = "[user_entry ''thanks, dr. ricci?'']"
  have h1: "role ?e = ''assistant'' \<and> (\<forall>x\<in>set ?post. role x \<noteq> ''assistant'')"
    by (simp add: assistant_entry_def user_entry_def)
  have h2: "\<forall>x\<in>set [user_entry ''Dr. Ricci please'']. role x \<noteq> ''assistant''"
    by (simp add: user_entry_def)
  have f: "filter (\<lambda>n. \<exists>ps ss. lower (content ?e) = ps @ lower n @ ss) (map fst (doctors example_db))
           = [''Dr. Fontana'', ''Dr. Moretti'']"
    unfolding py_in_iff [symmetric]
    by (simp add: example_db_def assistant_entry_def lower_def is_upper_def)
  from h1 h2 f show ?thesis
    using extract_last_assistant_only [of ?e ?post example_db "[assistant_entry ''Please see Dr. Ricci'']"
        "[user_entry ''Dr. Ricci please'']"]
    by simp
qed

section \<open>Pre-fetched slot data\<close>

lemma set_open_slots_where:
  "set (open_slots_where P d) =
     {(slot_id a, doctor a, time_slot a, spec) | a spec.
        a \<in> set (appointments d) \<and> patient a = None \<and> (doctor a, spec) \<in> set (doctors d)
        \<and> P (doctor a) spec}"
  by (auto simp: open_slots_where_def split: if_splits)

lemma set_all_open_slots:
  "get_slots_by_specialization (Inr d) None = Inr all \<Longrightarrow>
   set all = {(slot_id a, doctor a, time_slot a, spec) | a spec.
        a \<in> set (appointments d) \<and> patient a = None \<and> (doctor a, spec) \<in> set (doctors d)}"
  by (auto simp: get_slots_by_specialization_def set_open_slots_where)

text \<open>
  C5, as the code has it. When the doctors named in the last assistant entry have no
  open slot and the store has at least one open slot, the block is the line
  "No slots available for <names>. Here are ALL available slots:" followed by one line
  "- Slot ID {id}: {doctor} ({specialization}) - {time}" for every open slot, an open slot
  being an appointment without patient joined with the doctors table.
\<close>

theorem fallback_lists_all_open_slots:
  assumes "extract_mentioned_doctors_from_history (Inr d) h = Inr ms" and "ms \<noteq> []"
    and "get_slots_by_doctors (Inr d) ms = Inr []"
    and "get_slots_by_specialization (Inr d) None = Inr all" and "all \<noteq> []"
  shows "slots_info (Inr d) h =
           Inr (''No slots available for '' @ join '', '' ms
                @ ''. Here are ALL available slots:\<newline>'' @ concat (map slot_line all))
         \<and> set all = {(slot_id a, doctor a, time_slot a, spec) | a spec.
              a \<in> set (appointments d) \<and> patient a = None \<and> (doctor a, spec) \<in> set (doctors d)}
         \<and> (\<forall>sl\<in>set all. slot_line sl =
              ''- Slot ID '' @ str_int (fst sl) @ '': '' @ fst (snd sl) @ '' (''
                @ snd (snd (snd sl)) @ '') - '' @ fst (snd (snd sl)) @ ''\<newline>'')"
proof (intro conjI)
  from assms show "slots_info (Inr d) h =
           Inr (''No slots available for '' @ join '', '' ms
                @ ''. Here are ALL available slots:\<newline>'' @ concat (map slot_line all))"
    by (simp add: slots_info_def)
next
  from assms(4) show "set all = {(slot_id a, doctor a, time_slot a, spec) | a spec.
              a \<in> set (appointments d) \<and> patient a = None \<and> (doctor a, spec) \<in> set (doctors d)}"
    by (rule set_all_open_slots)
next
  show "\<forall>sl\<in>set all. slot_line sl =
              ''- Slot ID '' @ str_int (fst sl) @ '': '' @ fst (snd sl) @ '' (''
                @ snd (snd (snd sl)) @ '') - '' @ fst (snd (snd sl)) @ ''\<newline>''"
    by (auto simp: slot_line_def)
qed

lemma example_mentioned:
  "extract_mentioned_doctors_from_history (Inr example_db) [assistant_entry ''Please see Dr. Ricci'']
     = Inr [''Dr. Ricci'']"
  by (simp add: extract_mentioned_doctors_from_history_def get_all_doctor_names_def example_db_def
      assistant_entry_def lower_def is_upper_def)

lemma example_no_slots: "get_slots_by_doctors (Inr example_db) [''Dr. Ricci''] = Inr []"
  by (simp add: get_slots_by_doctors_def open_slots_where_def example_db_def sql_lower_def is_upper_def)

lemma example_all_slots:
  "get_slots_by_specialization (Inr example_db) None
     = Inr [(7, ''Dr. Fontana'', ''2025-01-10 09:00'', ''Cardiology'')]"
  by (simp add: get_slots_by_specialization_def open_slots_where_def example_db_def)

lemma str_int_7: "str_int 7 = ''7''"
  by (simp add: str_int_def str_nat.simps digit_char_def)

theorem fallback_lists_all_open_slots_witness:
  "slots_info (Inr example_db) [assistant_entry ''Please see Dr. Ricci''] =
     Inr ''No slots available for Dr. Ricci. Here are ALL available slots:\<newline>- Slot ID 7: Dr. Fontana (Cardiology) - 2025-01-10 09:00\<newline>''"
proof -
  have ne: "[''Dr. Ricci''] \<noteq> []" "[(7::int, ''Dr. Fontana'', ''2025-01-10 09:00'', ''Cardiology'')] \<noteq> []"
    by simp_all
  show ?thesis
    using fallback_lists_all_open_slots [OF example_mentioned ne(1) example_no_slots example_all_slots ne(2)]
    by (simp add: slot_line_def str_int_7)
qed

theorem fallback_without_open_slots_counterexample:
  "extract_mentioned_doctors_from_history (Inr booked_db) [assistant_entry ''Please see Dr. Ricci'']
     = Inr [''Dr. Ricci'']
   \<and> get_slots_by_doctors (Inr booked_db) [''Dr. Ricci''] = Inr []
   \<and> slots_info (Inr booked_db) [assistant_entry ''Please see Dr. Ricci'']
     = Inr ''No appointment slots available at the moment.''"
proof -
  have a: "extract_mentioned_doctors_from_history (Inr booked_db) [assistant_entry ''Please see Dr. Ricci'']
     = Inr [''Dr. Ricci'']"
    by (simp add: extract_mentioned_doctors_from_history_def get_all_doctor_names_def booked_db_def
        assistant_entry_def lower_def is_upper_def)
  have b: "get_slots_by_doctors (Inr booked_db) [''Dr. Ricci''] = Inr []"
    by (simp add: get_slots_by_doctors_def open_slots_where_def booked_db_def sql_lower_def is_upper_def)
  have c: "get_slots_by_specialization (Inr booked_db) None = Inr []"
    by (simp add: get_slots_by_specialization_def open_slots_where_def booked_db_def)
  from a b c show ?thesis by (simp add: slots_info_def)
qed

section \<open>What a turn of the chat loop leaves alone\<close>

lemma sql_branch_frame:
  "files (snd (sql_branch cb w msg s)) = files s
   \<and> sent (snd (sql_branch cb w msg s)) = sent s
   \<and> current_ws_user_name (snd (sql_branch cb w msg s)) = current_ws_user_name s
   \<and> chat_history (snd (sql_branch cb w msg s)) = chat_history s"
  by (simp add: sql_branch_def Let_def split: sum.splits prod.splits)

lemma medical_branch_frame:
  "files (snd (medical_branch cb w msg s)) = files s
   \<and> sent (snd (medical_branch cb w msg s)) = sent s
   \<and> current_ws_user_name (snd (medical_branch cb w msg s)) = current_ws_user_name s
   \<and> sql_chat_history (snd (medical_branch cb w msg s)) = sql_chat_history s"
  by (simp add: medical_branch_def Let_def split: sum.splits prod.splits)

lemma dispatch_frame:
  "files (snd (dispatch cb w msg s)) = files s
   \<and> sent (snd (dispatch cb w msg s)) = sent s
   \<and> current_ws_user_name (snd (dispatch cb w msg s)) = current_ws_user_name s"
  by (simp add: dispatch_def summary_branch_def sql_branch_frame medical_branch_frame
      split: intent.splits)

lemma save_and_send_cases:
  "(response s = None \<and> save_and_send w s = (Some (UnboundLocalError ''response''), s))
   \<or> (\<exists>r. response s = Some r \<and> save_and_send w s =
         (None, s\<lparr>files := save_chat_message (time_replied w) ''bot'' r (current_ws_user_name s) (files s),
                  sent := sent s @ [r]\<rparr>))"
  by (cases "response s") (simp_all add: save_and_send_def)

text \<open>The outcome of a turn, read off the \<open>try\<close> block.\<close>

lemma on_message_outcome:
  "try_block cb w msg
      (s\<lparr>files := save_chat_message (time_received w) ''user'' msg (current_ws_user_name s) (files s)\<rparr>)
     = (r, s') \<Longrightarrow>
   on_message cb w msg s =
     (case r of None \<Rightarrow> s' | Some e \<Rightarrow> s'\<lparr>sent := sent s' @ [''Bot Error: '' @ str_exc e]\<rparr>)"
  by (simp add: on_message_def Let_def split: option.splits)

lemma try_block_raises:
  "fst (try_block cb w msg s) = Some e \<Longrightarrow>
   files (snd (try_block cb w msg s)) = files s \<and> sent (snd (try_block cb w msg s)) = sent s"
  using dispatch_frame [of cb w msg s] save_and_send_cases [of "snd (dispatch cb w msg s)" w]
  by (auto simp: try_block_def split: prod.splits option.splits)

lemma try_block_returns:
  "fst (try_block cb w msg s) = None \<Longrightarrow>
   \<exists>r. response (snd (try_block cb w msg s)) = Some r
     \<and> sent (snd (try_block cb w msg s)) = sent s @ [r]
     \<and> files (snd (try_block cb w msg s)) =
         save_chat_message (time_replied w) ''bot'' r (current_ws_user_name s) (files s)"
  using dispatch_frame [of cb w msg s] save_and_send_cases [of "snd (dispatch cb w msg s)" w]
  by (auto simp: try_block_def split: prod.splits option.splits)

section \<open>Errors stay inside the turn\<close>

lemma on_message_sent:
  "\<exists>r. sent (on_message cb w msg s) = sent s @ [r]
     \<and> (response (on_message cb w msg s) = Some r \<or> prefix ''Bot Error: '' r)"
proof -
  let ?s0 = "s\<lparr>files := save_chat_message (time_received w) ''user'' msg (current_ws_user_name s) (files s)\<rparr>"
  obtain r s' where t: "try_block cb w msg ?s0 = (r, s')" by (cases "try_block cb w msg ?s0")
  show ?thesis
  proof (cases r)
    case None
    with t have "fst (try_block cb w msg ?s0) = None" by simp
    from try_block_returns [OF this] t None show ?thesis
      by (auto simp: on_message_outcome [OF t])
  next
    case (Some e)
    with t have "fst (try_block cb w msg ?s0) = Some e" by simp
    from try_block_raises [OF this] t Some show ?thesis
      by (auto simp: on_message_outcome [OF t])
  qed
qed

lemma chat_loop_sent: "length (sent (chat_loop cb s inbound)) = length (sent s) + length inbound"
proof (induction inbound arbitrary: s)
  case Nil
  show ?case by simp
next
  case (Cons a inbound)
  obtain msg w where a: "a = (msg, w)" by (cases a)
  from on_message_sent [of cb w msg s]
  have "length (sent (on_message cb w msg s)) = Suc (length (sent s))" by auto
  with Cons.IH [of "on_message cb w msg s"] a show ?case by simp
qed

text \<open>
  C7. A turn sends exactly one frame: the response when the \<open>try\<close> block returns, and
  the text "Bot Error: " followed by the message of the exception when anything in the
  block raises (the store queries of the prefetch, an unbound agent, the agent call,
  reading its result). The loop then goes on: a session of n inbound messages sends
  n frames after what was sent before, whatever failed on the way.
\<close>

theorem every_message_is_answered:
  "(case fst (try_block cb w msg
           (s\<lparr>files := save_chat_message (time_received w) ''user'' msg (current_ws_user_name s) (files s)\<rparr>)) of
      None \<Rightarrow> (\<exists>r. response (on_message cb w msg s) = Some r \<and> sent (on_message cb w msg s) = sent s @ [r])
    | Some e \<Rightarrow> sent (on_message cb w msg s) = sent s @ [''Bot Error: '' @ str_exc e])
   \<and> length (sent (chat_loop cb s inbound)) = length (sent s) + length inbound"
proof -
  let ?s0 = "s\<lparr>files := save_chat_message (time_received w) ''user'' msg (current_ws_user_name s) (files s)\<rparr>"
  obtain r s' where t: "try_block cb w msg ?s0 = (r, s')" by (cases "try_block cb w msg ?s0")
  have "case r of
          None \<Rightarrow> (\<exists>r. response (on_message cb w msg s) = Some r \<and> sent (on_message cb w msg s) = sent s @ [r])
        | Some e \<Rightarrow> sent (on_message cb w msg s) = sent s @ [''Bot Error: '' @ str_exc e]"
  proof (cases r)
    case None
    with t have "fst (try_block cb w msg ?s0) = None" by simp
    from try_block_returns [OF this] t None show ?thesis
      by (auto simp: on_message_outcome [OF t])
  next
    case (Some e)
    with t have "fst (try_block cb w msg ?s0) = Some e" by simp
    from try_block_raises [OF this] t Some show ?thesis
      by (auto simp: on_message_outcome [OF t])
  qed
  with t show ?thesis by (simp add: chat_loop_sent)
qed

lemma route_headache: "route ''I have a headache'' = MedicalQa"
  by (simp add: route_def should_use_summary_agent_def should_use_sql_agent_def any_in_def
      SUMMARY_AGENT_KEYWORDS_def SQL_AGENT_KEYWORDS_def lower_def is_upper_def)

lemma headache_fails:
  "fst (try_block 10 failing_world ''I have a headache''
     (example_start\<lparr>files := save_chat_message (time_received failing_world) ''user'' ''I have a headache''
         (current_ws_user_name example_start) (files example_start)\<rparr>))
   = Some (Failure ''connection refused'')"
  by (simp add: try_block_def dispatch_def route_headache medical_branch_def failing_world_def
      example_world_def example_start_def get_all_doctors_list_def example_db_def
      faiss_context_def truncate_buffer_def Let_def)

theorem every_message_is_answered_witness:
  "sent (on_message 10 failing_world ''I have a headache'' example_start)
     = sent example_start @ [''Bot Error: connection refused'']
   \<and> length (sent (chat_loop 10 example_start
         [(''I have a headache'', failing_world), (''I have a headache'', example_world)]))
     = length (sent example_start) + 2"
  using every_message_is_answered [of 10 failing_world "''I have a headache''" example_start
      "[(''I have a headache'', failing_world), (''I have a headache'', example_world)]"]
    headache_fails
  by simp

section \<open>The transcript after a failed turn\<close>

text \<open>
  C10. When the \<open>try\<close> block raises, the client is sent "Bot Error: " with the message
  of the exception, and the chat history folder is what logging the user line on receipt
  made it: the file of the user has gained that one line and no bot line.
\<close>

theorem bot_error_is_not_logged:
  assumes "fst (try_block cb w msg
             (s\<lparr>files := save_chat_message (time_received w) ''user'' msg (current_ws_user_name s) (files s)\<rparr>))
           = Some e"
  shows "sent (on_message cb w msg s) = sent s @ [''Bot Error: '' @ str_exc e]
       \<and> files (on_message cb w msg s)
           = save_chat_message (time_received w) ''user'' msg (current_ws_user_name s) (files s)
       \<and> files (on_message cb w msg s) (history_path (current_ws_user_name s))
           = Some ((case files s (history_path (current_ws_user_name s)) of None \<Rightarrow> [] | Some old \<Rightarrow> old)
                   @ transcript_line (time_received w) ''user'' msg)"
proof -
  let ?s0 = "s\<lparr>files := save_chat_message (time_received w) ''user'' msg (current_ws_user_name s) (files s)\<rparr>"
  obtain r s' where t: "try_block cb w msg ?s0 = (r, s')" by (cases "try_block cb w msg ?s0")
  with assms have r: "r = Some e" by simp
  from try_block_raises [OF assms] t
  have "files s' = files ?s0" "sent s' = sent ?s0" by simp_all
  with r show ?thesis
    by (simp add: on_message_outcome [OF t] save_chat_message_def)
qed

lemma example_stamp: "strftime (time_received failing_world) = ''04-11-2026 09:30:00''"
  by (simp add: strftime_def failing_world_def example_world_def zfill_def str_nat.simps digit_char_def)

theorem bot_error_is_not_logged_witness:
  "sent (on_message 10 failing_world ''I have a headache'' example_start)
     = sent example_start @ [''Bot Error: connection refused'']
   \<and> files (on_message 10 failing_world ''I have a headache'' example_start) (history_path ''Mario Rossi'')
     = Some ''[04-11-2026 09:30:00] user: I have a headache\<newline>\<newline>''"
proof -
  have h: "fst (try_block 10 failing_world ''I have a headache''
     (example_start\<lparr>files := save_chat_message (time_received failing_world) ''user'' ''I have a headache''
         (current_ws_user_name example_start) (files example_start)\<rparr>)) = Some (Failure ''connection refused'')"
    by (rule headache_fails)
  have u: "current_ws_user_name example_start = ''Mario Rossi''"
    by (simp add: example_start_def)
  have f: "files example_start (history_path ''Mario Rossi'') = Some []"
    by (simp add: example_start_def)
  show ?thesis
    using bot_error_is_not_logged [OF h] u f
    by (simp add: transcript_line_def example_stamp save_chat_message_def)
qed

section \<open>The summary path\<close>

text \<open>
  C8. A message routed to Summary calls the summary service once, with the user name
  as its only argument from the session; neither conversation buffer changes. The text
  sent is the summary computed from the user's transcript file and the world, so it does
  not depend on the buffers.
\<close>

theorem summary_leaves_buffers:
  assumes "route msg = Summary"
  shows "chat_history (on_message cb w msg s) = chat_history s
       \<and> sql_chat_history (on_message cb w msg s) = sql_chat_history s
       \<and> calls (on_message cb w msg s) = calls s @ [SummaryCall (current_ws_user_name s)]
       \<and> sent (on_message cb w msg s) = sent s @
            [generate_consultation_summary w
               (save_chat_message (time_received w) ''user'' msg (current_ws_user_name s) (files s))
               (current_ws_user_name s)]"
  using assms
  by (simp add: on_message_def try_block_def dispatch_def summary_branch_def save_and_send_def Let_def)

lemma route_summary_example: "route ''Give me a summary of my bookings'' = Summary"
  by (simp add: route_def should_use_summary_agent_def any_in_def
      SUMMARY_AGENT_KEYWORDS_def lower_def is_upper_def)

theorem summary_leaves_buffers_witness:
  "chat_history (on_message 10 example_world ''Give me a summary of my bookings'' example_start) = []
   \<and> sql_chat_history (on_message 10 example_world ''Give me a summary of my bookings'' example_start) = []
   \<and> calls (on_message 10 example_world ''Give me a summary of my bookings'' example_start)
       = [SummaryCall ''Mario Rossi'']"
  using summary_leaves_buffers [OF route_summary_example, of 10 example_world example_start]
  by (simp add: example_start_def)

section \<open>Sql keywords without an availability word\<close>

text \<open>
  The statements that call the sql agent sit inside the \<open>if\<close> on the availability
  words. Without such a word the sql branch does nothing, and the turn goes straight to
  logging and sending whatever \<open>response\<close> holds.
\<close>

lemma sql_turn_without_availability:
  assumes "route msg = SqlAgent"
    and "\<not> any_in [''slot'', ''available'', ''show'', ''see''] (lower msg)"
  shows "on_message cb w msg s =
     (case response s of
        None \<Rightarrow>
          s\<lparr>files := save_chat_message (time_received w) ''user'' msg (current_ws_user_name s) (files s),
            sent := sent s @ [''Bot Error: '' @ str_exc (UnboundLocalError ''response'')]\<rparr>
      | Some r \<Rightarrow>
          s\<lparr>files := save_chat_message (time_replied w) ''bot'' r (current_ws_user_name s)
                      (save_chat_message (time_received w) ''user'' msg (current_ws_user_name s) (files s)),
            sent := sent s @ [r]\<rparr>)"
  using assms
  by (simp add: on_message_def try_block_def dispatch_def sql_branch_def save_and_send_def Let_def
      split: option.splits)

lemma route_book: "route ''I want to book an appointment with Dr. Ricci'' = SqlAgent"
  by (simp add: route_def should_use_summary_agent_def should_use_sql_agent_def any_in_def
      SUMMARY_AGENT_KEYWORDS_def SQL_AGENT_KEYWORDS_def lower_def is_upper_def)

lemma book_no_availability:
  "\<not> any_in [''slot'', ''available'', ''show'', ''see''] (lower ''I want to book an appointment with Dr. Ricci'')"
  by (simp add: any_in_def lower_def is_upper_def)

lemma example_stamps:
  "strftime (time_received example_world) = ''04-11-2026 09:30:00''"
  "strftime (time_replied example_world) = ''04-11-2026 09:30:07''"
  by (simp_all add: strftime_def example_world_def zfill_def str_nat.simps digit_char_def)

lemma example_start_files: "files example_start (history_path ''Mario Rossi'') = Some []"
  by (simp add: example_start_def)

lemma example_start_fields:
  "response example_start = None" "calls example_start = []"
  "chat_history example_start = []" "sql_chat_history example_start = []"
  "current_ws_user_name example_start = ''Mario Rossi''"
  "sql_agent_bound example_start" "agent_bound example_start"
  by (simp_all add: example_start_def)

text \<open>
  C1, at a message the code can receive. "I want to book an appointment with Dr. Ricci"
  has the sql keywords "book" and "appointment" and none of the availability words, so it
  is routed to the sql agent; yet in a fresh session with both agents created no service
  is called at all, whatever the world and the buffer bound, and the client gets the
  error of the unassigned \<open>response\<close>.
\<close>

theorem booking_message_invokes_no_agent:
  "route ''I want to book an appointment with Dr. Ricci'' = SqlAgent
   \<and> calls (on_message cb w ''I want to book an appointment with Dr. Ricci'' example_start) = []
   \<and> sent (on_message cb w ''I want to book an appointment with Dr. Ricci'' example_start)
       = sent example_start
         @ [''Bot Error: '' @ str_exc (UnboundLocalError ''response'')]"
  by (simp add: route_book sql_turn_without_availability [OF route_book book_no_availability]
      example_start_fields)

text \<open>
  What such a turn does in any state: no service is called and neither buffer nor
  \<open>response\<close> changes. If \<open>response\<close> has never been assigned the client is sent the
  "Bot Error: " text of the unbound variable and only the user line is logged; otherwise
  the value \<open>response\<close> holds, the result of the last turn that assigned it, is logged
  as a bot line and sent again.
\<close>

theorem sql_without_availability_resends:
  assumes "route msg = SqlAgent"
    and "\<not> any_in [''slot'', ''available'', ''show'', ''see''] (lower msg)"
  shows "chat_history (on_message cb w msg s) = chat_history s
       \<and> sql_chat_history (on_message cb w msg s) = sql_chat_history s
       \<and> calls (on_message cb w msg s) = calls s
       \<and> response (on_message cb w msg s) = response s
       \<and> (case response s of
            None \<Rightarrow>
              sent (on_message cb w msg s)
                = sent s @ [''Bot Error: '' @ str_exc (UnboundLocalError ''response'')]
              \<and> files (on_message cb w msg s)
                = save_chat_message (time_received w) ''user'' msg (current_ws_user_name s) (files s)
          | Some r \<Rightarrow>
              sent (on_message cb w msg s) = sent s @ [r]
              \<and> files (on_message cb w msg s)
                = save_chat_message (time_replied w) ''bot'' r (current_ws_user_name s)
                    (save_chat_message (time_received w) ''user'' msg (current_ws_user_name s) (files s)))"
  by (simp add: sql_turn_without_availability [OF assms] split: option.splits)

theorem sql_without_availability_resends_witness:
  "sent (on_message 10 example_world ''I want to book an appointment with Dr. Ricci''
           (example_start\<lparr>response := Some ''Please see Dr. Ricci''\<rparr>))
     = sent example_start @ [''Please see Dr. Ricci'']
   \<and> calls (on_message 10 example_world ''I want to book an appointment with Dr. Ricci''
           (example_start\<lparr>response := Some ''Please see Dr. Ricci''\<rparr>)) = []
   \<and> sent (on_message 10 example_world ''I want to book an appointment with Dr. Ricci'' example_start)
     = sent example_start @ [''Bot Error: '' @ str_exc (UnboundLocalError ''response'')]"
  using sql_without_availability_resends [OF route_book book_no_availability, of 10 example_world
      "example_start\<lparr>response := Some ''Please see Dr. Ricci''\<rparr>"]
    sql_without_availability_resends [OF route_book book_no_availability, of 10 example_world example_start]
  by (simp add: example_start_fields)

lemma route_cancel: "route ''Cancel my booking'' = SqlAgent"
  by (simp add: route_def should_use_summary_agent_def should_use_sql_agent_def any_in_def
      SUMMARY_AGENT_KEYWORDS_def SQL_AGENT_KEYWORDS_def lower_def is_upper_def)

lemma cancel_no_availability:
  "\<not> any_in [''slot'', ''available'', ''show'', ''see''] (lower ''Cancel my booking'')"
  by (simp add: any_in_def lower_def is_upper_def)

text \<open>
  C9, at a session the code can receive. Two messages with sql keywords and no
  availability word arrive in a fresh session. The second is not the first message of
  the session, and there is no earlier response to send again: \<open>response\<close> is still
  unassigned, the client gets the same error a second time, the transcript holds the two
  user lines and no bot line, and no agent has been called for either message.
\<close>

theorem second_sql_message_gets_no_reply:
  "route ''Cancel my booking'' = SqlAgent
   \<and> sent (chat_loop 10 example_start
          [(''I want to book an appointment with Dr. Ricci'', example_world),
           (''Cancel my booking'', example_world)])
     = sent example_start
       @ [''Bot Error: '' @ str_exc (UnboundLocalError ''response''),
          ''Bot Error: '' @ str_exc (UnboundLocalError ''response'')]
   \<and> calls (chat_loop 10 example_start
          [(''I want to book an appointment with Dr. Ricci'', example_world),
           (''Cancel my booking'', example_world)]) = []
   \<and> response (chat_loop 10 example_start
          [(''I want to book an appointment with Dr. Ricci'', example_world),
           (''Cancel my booking'', example_world)]) = None
   \<and> files (chat_loop 10 example_start
          [(''I want to book an appointment with Dr. Ricci'', example_world),
           (''Cancel my booking'', example_world)]) (history_path ''Mario Rossi'')
     = Some ''[04-11-2026 09:30:00] user: I want to book an appointment with Dr. Ricci\<newline>\<newline>[04-11-2026 09:30:00] user: Cancel my booking\<newline>\<newline>''"
  by (simp add: route_cancel
      sql_turn_without_availability [OF route_book book_no_availability]
      sql_turn_without_availability [OF route_cancel cancel_no_availability]
      example_start_fields example_start_files save_chat_message_def transcript_line_def
      example_stamps)

section \<open>Buffer bound\<close>

lemma truncate_buffer_length: "0 < cb \<Longrightarrow> int (length (truncate_buffer cb h)) \<le> cb"
  by (auto simp: truncate_buffer_def last_slice_def)

lemma truncate_buffer_suffix: "suffix (truncate_buffer cb h) h"
  by (simp add: truncate_buffer_def last_slice_def suffix_drop)

lemma truncate_buffer_at_bound:
  assumes "0 < cb" and "int (length h) = cb"
  shows "truncate_buffer cb (h @ [e]) = tl h @ [e]"
proof -
  from assms have "h \<noteq> []" by auto
  then obtain x xs where h: "h = x # xs" by (cases h) auto
  with assms have "length (h @ [e]) - nat cb = 1" by auto
  with assms h show ?thesis
    by (simp add: truncate_buffer_def last_slice_def)
qed

lemma sql_branch_calls:
  "0 < cb \<Longrightarrow> \<exists>new. calls (snd (sql_branch cb w msg s)) = calls s @ new \<and> (\<forall>c\<in>set new. call_within cb c)"
  by (auto simp: sql_branch_def Let_def call_within_def truncate_buffer_length
      split: sum.splits prod.splits)

lemma medical_branch_calls:
  "0 < cb \<Longrightarrow> \<exists>new. calls (snd (medical_branch cb w msg s)) = calls s @ new \<and> (\<forall>c\<in>set new. call_within cb c)"
  by (auto simp: medical_branch_def Let_def call_within_def truncate_buffer_length
      split: sum.splits prod.splits)

lemma dispatch_calls:
  "0 < cb \<Longrightarrow> \<exists>new. calls (snd (dispatch cb w msg s)) = calls s @ new \<and> (\<forall>c\<in>set new. call_within cb c)"
  using sql_branch_calls [of cb w msg s] medical_branch_calls [of cb w msg s]
  by (cases "route msg") (auto simp: dispatch_def summary_branch_def call_within_def)

lemma on_message_calls:
  assumes "0 < cb"
  shows "\<exists>new. calls (on_message cb w msg s) = calls s @ new \<and> (\<forall>c\<in>set new. call_within cb c)"
proof -
  let ?s0 = "s\<lparr>files := save_chat_message (time_received w) ''user'' msg (current_ws_user_name s) (files s)\<rparr>"
  from dispatch_calls [OF assms, of w msg ?s0]
  obtain new where n: "calls (snd (dispatch cb w msg ?s0)) = calls s @ new" "\<forall>c\<in>set new. call_within cb c"
    by auto
  have "calls (on_message cb w msg s) = calls (snd (dispatch cb w msg ?s0))"
    by (simp add: on_message_def try_block_def save_and_send_def Let_def
        split: prod.splits option.splits)
  with n show ?thesis by auto
qed

lemma chat_loop_calls:
  assumes "0 < cb"
  shows "\<exists>new. calls (chat_loop cb s inbound) = calls s @ new \<and> (\<forall>c\<in>set new. call_within cb c)"
proof (induction inbound arbitrary: s)
  case Nil
  show ?case by simp
next
  case (Cons a inbound)
  obtain msg w where a: "a = (msg, w)" by (cases a)
  from on_message_calls [OF assms, of w msg s]
  obtain n1 where n1: "calls (on_message cb w msg s) = calls s @ n1" "\<forall>c\<in>set n1. call_within cb c"
    by auto
  from Cons.IH [of "on_message cb w msg s"]
  obtain n2 where n2: "calls (chat_loop cb (on_message cb w msg s) inbound) = calls (on_message cb w msg s) @ n2"
      "\<forall>c\<in>set n2. call_within cb c"
    by auto
  from n1 n2 a have "calls (chat_loop cb s (a # inbound)) = calls s @ (n1 @ n2)
      \<and> (\<forall>c\<in>set (n1 @ n2). call_within cb c)"
    by auto
  then show ?case by blast
qed

lemma truncate_buffer_drop:
  "0 < cb \<Longrightarrow> truncate_buffer cb b = drop (length b - nat cb) b"
  by (auto simp: truncate_buffer_def last_slice_def)

lemma medical_turn_calls:
  assumes "route msg = MedicalQa" and "get_all_doctors_list (db w) = Inr dl"
    and "faiss_context w msg = Inr ctx" and "agent_bound s"
  shows "calls (on_message cb w msg s)
           = calls s @ [LlmAgentCall (truncate_buffer cb (chat_history s @ [user_entry (enhanced_msg msg dl ctx)]))]"
  using assms
  by (simp add: on_message_def try_block_def dispatch_def medical_branch_def save_and_send_def Let_def
      split: sum.splits prod.splits option.splits)

lemma sql_turn_calls:
  assumes "route msg = SqlAgent" and "any_in [''slot'', ''available'', ''show'', ''see''] (lower msg)"
    and "slots_info (db w) (chat_history s) = Inr info" and "sql_agent_bound s"
  shows "calls (on_message cb w msg s)
           = calls s @ [SqlAgentCall (truncate_buffer cb (sql_chat_history s @ [user_entry (context_prefix info @ msg)]))]"
  using assms
  by (simp add: on_message_def try_block_def dispatch_def sql_branch_def save_and_send_def Let_def
      split: sum.splits prod.splits option.splits)

lemma last_entries:
  assumes "0 < cb"
  shows "int (length (drop (length (h @ [e]) - nat cb) (h @ [e]))) \<le> cb"
    and "int (length h) = cb \<Longrightarrow> drop (length (h @ [e]) - nat cb) (h @ [e]) = tl h @ [e]"
    and "int (length h) < cb \<Longrightarrow> drop (length (h @ [e]) - nat cb) (h @ [e]) = h @ [e]"
proof -
  from assms show "int (length (drop (length (h @ [e]) - nat cb) (h @ [e]))) \<le> cb" by auto
next
  assume l: "int (length h) = cb"
  with assms obtain x xs where h: "h = x # xs" by (cases h) auto
  from l assms have "length (h @ [e]) - nat cb = 1" by auto
  with h show "drop (length (h @ [e]) - nat cb) (h @ [e]) = tl h @ [e]" by simp
next
  assume "int (length h) < cb"
  then have "length (h @ [e]) - nat cb = 0" by auto
  then show "drop (length (h @ [e]) - nat cb) (h @ [e]) = h @ [e]" by simp
qed

text \<open>
  C2, as the code has it. With \<open>CHAT_BUFFER\<close> at least 1, a turn that reaches an
  agent hands it the session's buffer with the new user entry appended, cut to its last
  \<open>CHAT_BUFFER\<close> entries: the medical buffer for a medical question, the sql buffer for
  an availability request. What the agent receives has at most \<open>CHAT_BUFFER\<close> entries;
  when the buffer held exactly \<open>CHAT_BUFFER\<close> entries the oldest one alone is gone, and
  when it held fewer nothing is dropped. The state is arbitrary, so this holds at every
  turn of every session, and every call of a whole session is within the bound. Nothing
  cuts the buffer after the agent's messages replace it and the assistant entry is
  appended.
\<close>

theorem buffer_bounded_at_invocation:
  assumes "0 < cb"
  shows "(route msg = MedicalQa \<and> get_all_doctors_list (db w) = Inr dl
            \<and> faiss_context w msg = Inr ctx \<and> agent_bound s \<longrightarrow>
          (\<exists>b. calls (on_message cb w msg s) = calls s @ [LlmAgentCall b]
             \<and> b = drop (length (chat_history s @ [user_entry (enhanced_msg msg dl ctx)]) - nat cb)
                      (chat_history s @ [user_entry (enhanced_msg msg dl ctx)])
             \<and> int (length b) \<le> cb
             \<and> (int (length (chat_history s)) = cb \<longrightarrow>
                  b = tl (chat_history s) @ [user_entry (enhanced_msg msg dl ctx)])
             \<and> (int (length (chat_history s)) < cb \<longrightarrow>
                  b = chat_history s @ [user_entry (enhanced_msg msg dl ctx)])))
       \<and> (route msg = SqlAgent \<and> any_in [''slot'', ''available'', ''show'', ''see''] (lower msg)
            \<and> slots_info (db w) (chat_history s) = Inr info \<and> sql_agent_bound s \<longrightarrow>
          (\<exists>b. calls (on_message cb w msg s) = calls s @ [SqlAgentCall b]
             \<and> b = drop (length (sql_chat_history s @ [user_entry (context_prefix info @ msg)]) - nat cb)
                      (sql_chat_history s @ [user_entry (context_prefix info @ msg)])
             \<and> int (length b) \<le> cb
             \<and> (int (length (sql_chat_history s)) = cb \<longrightarrow>
                  b = tl (sql_chat_history s) @ [user_entry (context_prefix info @ msg)])
             \<and> (int (length (sql_chat_history s)) < cb \<longrightarrow>
                  b = sql_chat_history s @ [user_entry (context_prefix info @ msg)])))
       \<and> (\<exists>new. calls (chat_loop cb s inbound) = calls s @ new \<and> (\<forall>c\<in>set new. call_within cb c))"
proof (intro conjI impI)
  assume a: "route msg = MedicalQa \<and> get_all_doctors_list (db w) = Inr dl
            \<and> faiss_context w msg = Inr ctx \<and> agent_bound s"
  let ?e = "user_entry (enhanced_msg msg dl ctx)"
  let ?b = "drop (length (chat_history s @ [?e]) - nat cb) (chat_history s @ [?e])"
  from a have "calls (on_message cb w msg s) = calls s @ [LlmAgentCall (truncate_buffer cb (chat_history s @ [?e]))]"
    by (simp add: medical_turn_calls)
  then have "calls (on_message cb w msg s) = calls s @ [LlmAgentCall ?b]"
    by (simp only: truncate_buffer_drop [OF assms])
  with last_entries [OF assms, of "chat_history s" ?e]
  show "\<exists>b. calls (on_message cb w msg s) = calls s @ [LlmAgentCall b]
             \<and> b = ?b \<and> int (length b) \<le> cb
             \<and> (int (length (chat_history s)) = cb \<longrightarrow> b = tl (chat_history s) @ [?e])
             \<and> (int (length (chat_history s)) < cb \<longrightarrow> b = chat_history s @ [?e])"
    by blast
next
  assume a: "route msg = SqlAgent \<and> any_in [''slot'', ''available'', ''show'', ''see''] (lower msg)
            \<and> slots_info (db w) (chat_history s) = Inr info \<and> sql_agent_bound s"
  let ?e = "user_entry (context_prefix info @ msg)"
  let ?b = "drop (length (sql_chat_history s @ [?e]) - nat cb) (sql_chat_history s @ [?e])"
  from a have "calls (on_message cb w msg s) = calls s @ [SqlAgentCall (truncate_buffer cb (sql_chat_history s @ [?e]))]"
    by (simp add: sql_turn_calls)
  then have "calls (on_message cb w msg s) = calls s @ [SqlAgentCall ?b]"
    by (simp only: truncate_buffer_drop [OF assms])
  with last_entries [OF assms, of "sql_chat_history s" ?e]
  show "\<exists>b. calls (on_message cb w msg s) = calls s @ [SqlAgentCall b]
             \<and> b = ?b \<and> int (length b) \<le> cb
             \<and> (int (length (sql_chat_history s)) = cb \<longrightarrow> b = tl (sql_chat_history s) @ [?e])
             \<and> (int (length (sql_chat_history s)) < cb \<longrightarrow> b = sql_chat_history s @ [?e])"
    by blast
next
  from assms show "\<exists>new. calls (chat_loop cb s inbound) = calls s @ new \<and> (\<forall>c\<in>set new. call_within cb c)"
    by (rule chat_loop_calls)
qed

lemma example_doctors_list:
  "get_all_doctors_list (db example_world)
     = Inr ''AVAILABLE DOCTORS IN OUR SYSTEM:\<newline>- Cardiology: Dr. Fontana\<newline>- Dermatology: Dr. Moretti\<newline>- Neurology: Dr. Ricci''"
  by (simp add: get_all_doctors_list_def example_world_def example_db_def)

lemma example_no_retriever: "faiss_context example_world msg = Inr None"
  by (simp add: faiss_context_def example_world_def)

lemma route_show: "route ''Show me the available slots'' = SqlAgent"
  by (simp add: route_def should_use_summary_agent_def should_use_sql_agent_def any_in_def
      SUMMARY_AGENT_KEYWORDS_def SQL_AGENT_KEYWORDS_def lower_def is_upper_def)

lemma show_availability:
  "any_in [''slot'', ''available'', ''show'', ''see''] (lower ''Show me the available slots'')"
  by (simp add: any_in_def lower_def is_upper_def)

lemma example_later_slots:
  "slots_info (db example_world) (chat_history example_later)
     = Inr ''ALL AVAILABLE SLOTS:\<newline>- Slot ID 7: Dr. Fontana (Cardiology) - 2025-01-10 09:00\<newline>''"
  by (simp add: slots_info_def extract_mentioned_doctors_from_history_def get_all_doctor_names_def
      example_world_def example_db_def example_later_def user_entry_def assistant_entry_def
      lower_def is_upper_def get_slots_by_specialization_def open_slots_where_def slot_line_def
      str_int_7)

lemma example_later_fields:
  "calls example_later = []" "agent_bound example_later" "sql_agent_bound example_later"
  "chat_history example_later = [user_entry ''a'', assistant_entry ''b'']"
  "sql_chat_history example_later = [user_entry ''c'', assistant_entry ''d'']"
  by (simp_all add: example_later_def example_start_def)

theorem buffer_bounded_at_invocation_witness:
  "calls (on_message 2 example_world ''I have a headache'' example_later)
     = [LlmAgentCall
          [assistant_entry ''b'',
           user_entry (enhanced_msg ''I have a headache''
             ''AVAILABLE DOCTORS IN OUR SYSTEM:\<newline>- Cardiology: Dr. Fontana\<newline>- Dermatology: Dr. Moretti\<newline>- Neurology: Dr. Ricci''
             None)]]
   \<and> calls (on_message 2 example_world ''Show me the available slots'' example_later)
     = [SqlAgentCall
          [assistant_entry ''d'',
           user_entry (context_prefix
             ''ALL AVAILABLE SLOTS:\<newline>- Slot ID 7: Dr. Fontana (Cardiology) - 2025-01-10 09:00\<newline>''
             @ ''Show me the available slots'')]]"
proof -
  have p: "(0::int) < 2" by simp
  have m: "route ''I have a headache'' = MedicalQa
      \<and> get_all_doctors_list (db example_world)
          = Inr ''AVAILABLE DOCTORS IN OUR SYSTEM:\<newline>- Cardiology: Dr. Fontana\<newline>- Dermatology: Dr. Moretti\<newline>- Neurology: Dr. Ricci''
      \<and> faiss_context example_world ''I have a headache'' = Inr None \<and> agent_bound example_later"
    by (simp add: route_headache example_doctors_list example_no_retriever example_later_fields)
  have q: "route ''Show me the available slots'' = SqlAgent
      \<and> any_in [''slot'', ''available'', ''show'', ''see''] (lower ''Show me the available slots'')
      \<and> slots_info (db example_world) (chat_history example_later)
          = Inr ''ALL AVAILABLE SLOTS:\<newline>- Slot ID 7: Dr. Fontana (Cardiology) - 2025-01-10 09:00\<newline>''
      \<and> sql_agent_bound example_later"
    using route_show show_availability example_later_slots example_later_fields(3) by blast
  have l: "int (length (chat_history example_later)) = 2" "int (length (sql_chat_history example_later)) = 2"
    by (simp_all add: example_later_fields)
  from buffer_bounded_at_invocation [OF p, of "''I have a headache''" example_world _ None example_later]
    m l(1)
  have a: "calls (on_message 2 example_world ''I have a headache'' example_later)
     = [LlmAgentCall
          [assistant_entry ''b'',
           user_entry (enhanced_msg ''I have a headache''
             ''AVAILABLE DOCTORS IN OUR SYSTEM:\<newline>- Cardiology: Dr. Fontana\<newline>- Dermatology: Dr. Moretti\<newline>- Neurology: Dr. Ricci''
             None)]]"
    by (auto simp: example_later_fields)
  from buffer_bounded_at_invocation [OF p, of "''Show me the available slots''" example_world _ _ example_later]
    q l(2)
  have b: "calls (on_message 2 example_world ''Show me the available slots'' example_later)
     = [SqlAgentCall
          [assistant_entry ''d'',
           user_entry (context_prefix
             ''ALL AVAILABLE SLOTS:\<newline>- Slot ID 7: Dr. Fontana (Cardiology) - 2025-01-10 09:00\<newline>''
             @ ''Show me the available slots'')]]"
    by (auto simp: example_later_fields)
  from a b show ?thesis by blast
qed

text \<open>
  With a bound of 1, one answered medical question leaves three entries in the medical
  buffer: the two messages the agent returned and the assistant entry appended to them.
\<close>

theorem buffer_exceeds_bound_counterexample:
  "length (chat_history (on_message 1 example_world ''I have a headache'' example_start)) = 3"
  by (simp add: on_message_def try_block_def dispatch_def route_headache medical_branch_def
      example_world_def example_start_def get_all_doctors_list_def example_db_def
      faiss_context_def truncate_buffer_def parse_results_def save_and_send_def Let_def)

section \<open>Transcript round trip\<close>

lemma is_digit_digit_char: "n < 10 \<Longrightarrow> is_digit (digit_char n)"
proof -
  assume "n < 10"
  then have "n \<in> {0, 1, 2, 3, 4, 5, 6, 7, 8, 9}" by auto
  then show ?thesis by (auto simp: is_digit_def digit_char_def)
qed

lemma str_nat_digits: "\<forall>c\<in>set (str_nat n). is_digit c"
proof (induction n rule: str_nat.induct)
  case (1 n)
  show ?case
  proof (cases "n < 10")
    case True
    then show ?thesis by (simp add: str_nat.simps [of n] is_digit_digit_char)
  next
    case False
    with 1 have "\<forall>c\<in>set (str_nat (n div 10)). is_digit c" by simp
    with False show ?thesis by (simp add: str_nat.simps [of n] is_digit_digit_char)
  qed
qed

lemma str_nat_length: "0 < k \<Longrightarrow> n < 10 ^ k \<Longrightarrow> length (str_nat n) \<le> k"
proof (induction n arbitrary: k rule: str_nat.induct)
  case (1 n)
  show ?case
  proof (cases "n < 10")
    case True
    with 1 show ?thesis by (simp add: str_nat.simps [of n])
  next
    case False
    from False 1(3) have "1 < k" by (cases "k = 1") (use 1(2) in auto)
    then obtain j where k: "k = Suc j" "0 < j" by (cases k) auto
    from 1(3) k have "n div 10 < 10 ^ j" by (simp add: less_mult_imp_div_less mult.commute)
    with 1(1) [OF False k(2)] have "length (str_nat (n div 10)) \<le> j" by simp
    with False k show ?thesis by (simp add: str_nat.simps [of n])
  qed
qed

lemma zfill_digits:
  assumes "0 < k" and "n < 10 ^ k"
  shows "length (zfill k (str_nat n)) = k \<and> (\<forall>c\<in>set (zfill k (str_nat n)). is_digit c)"
proof -
  from str_nat_length [OF assms] have "length (str_nat n) \<le> k" .
  moreover have "is_digit (CHR ''0'')" by (simp add: is_digit_def)
  ultimately show ?thesis using str_nat_digits [of n] by (auto simp: zfill_def)
qed

lemma two_digits:
  assumes "n < 100"
  obtains a b where "zfill 2 (str_nat n) = [a, b]" "is_digit a" "is_digit b"
proof -
  from assms have "n < 10 ^ 2" by simp
  from zfill_digits [OF _ this]
  have l: "length (zfill 2 (str_nat n)) = 2" and d: "\<forall>c\<in>set (zfill 2 (str_nat n)). is_digit c" by auto
  from l obtain a b where "zfill 2 (str_nat n) = [a, b]"
    by (cases "zfill 2 (str_nat n)"; cases "tl (zfill 2 (str_nat n))") auto
  with d that show ?thesis by auto
qed

lemma four_digits:
  assumes "n < 10000"
  obtains a b c d where "zfill 4 (str_nat n) = [a, b, c, d]" "is_digit a" "is_digit b" "is_digit c" "is_digit d"
proof -
  from assms have "n < 10 ^ 4" by simp
  from zfill_digits [OF _ this]
  have l: "length (zfill 4 (str_nat n)) = 4" and d: "\<forall>c\<in>set (zfill 4 (str_nat n)). is_digit c" by auto
  from l obtain a b c e where "zfill 4 (str_nat n) = [a, b, c, e]"
    by (auto simp: length_Suc_conv numeral_eq_Suc)
  with d that show ?thesis by auto
qed

lemma match_timestamp:
  assumes "valid_datetime t"
  shows "match_atoms timestamp_atoms (strftime t @ rest) = Some (strftime t, rest)"
proof -
  from assms have b: "dt_day t < 100" "dt_month t < 100" "dt_year t < 10000" "dt_hour t < 100"
      "dt_minute t < 100" "dt_second t < 100"
    by (auto simp: valid_datetime_def)
  obtain d1 d2 where d: "zfill 2 (str_nat (dt_day t)) = [d1, d2]" "is_digit d1" "is_digit d2"
    using two_digits [OF b(1)] by blast
  obtain m1 m2 where m: "zfill 2 (str_nat (dt_month t)) = [m1, m2]" "is_digit m1" "is_digit m2"
    using two_digits [OF b(2)] by blast
  obtain y1 y2 y3 y4 where y: "zfill 4 (str_nat (dt_year t)) = [y1, y2, y3, y4]"
      "is_digit y1" "is_digit y2" "is_digit y3" "is_digit y4"
    using four_digits [OF b(3)] by blast
  obtain h1 h2 where h: "zfill 2 (str_nat (dt_hour t)) = [h1, h2]" "is_digit h1" "is_digit h2"
    using two_digits [OF b(4)] by blast
  obtain n1 n2 where n: "zfill 2 (str_nat (dt_minute t)) = [n1, n2]" "is_digit n1" "is_digit n2"
    using two_digits [OF b(5)] by blast
  obtain s1 s2 where s: "zfill 2 (str_nat (dt_second t)) = [s1, s2]" "is_digit s1" "is_digit s2"
    using two_digits [OF b(6)] by blast
  from d m y h n s show ?thesis
    by (simp add: strftime_def timestamp_atoms_def)
qed

lemma strip_prefix_append: "strip_prefix p (p @ s) = Some s"
  by (induction p) auto

lemma match_role_append:
  "who = ''user'' \<or> who = ''bot'' \<Longrightarrow> match_role (who @ s) = Some (who, s)"
  by (auto simp: match_role_def)

lemma newline_bracket_inside:
  assumes "prefix ''\<newline>['' (t @ ''\<newline>\<newline>'' @ rest)"
  shows "py_in ''\<newline>['' t"
proof (cases t)
  case Nil
  with assms show ?thesis by simp
next
  case (Cons x t')
  show ?thesis
  proof (cases t')
    case Nil
    with Cons assms show ?thesis by simp
  next
    case (Cons y t'')
    with \<open>t = x # t'\<close> assms show ?thesis by simp
  qed
qed

text \<open>
  The lazy group on a logged line whose text has no newline followed by a bracket: it
  runs to the end of the input when the line is the last one, and stops before the second
  newline of the separator when another line follows.
\<close>

lemma lazy_dot_last:
  "\<not> py_in ''\<newline>['' body \<Longrightarrow>
   lazy_dot (body @ ''\<newline>\<newline>'') = Some (body @ ''\<newline>\<newline>'', [])"
proof (induction body)
  case Nil
  show ?case by simp
next
  case (Cons c t)
  from Cons.prems have n: "\<not> py_in ''\<newline>['' t" by simp
  have "\<not> prefix ''\<newline>['' (t @ ''\<newline>\<newline>'')"
    using newline_bracket_inside [of t "[]"] n by auto
  with Cons.IH [OF n] show ?case by simp
qed

lemma lazy_dot_next:
  "\<not> py_in ''\<newline>['' body \<Longrightarrow>
   lazy_dot (body @ ''\<newline>\<newline>'' @ CHR ''['' # tail)
     = Some (body @ ''\<newline>'', CHR ''\<newline>'' # CHR ''['' # tail)"
proof (induction body)
  case Nil
  show ?case by simp
next
  case (Cons c t)
  from Cons.prems have n: "\<not> py_in ''\<newline>['' t" by simp
  have "\<not> prefix ''\<newline>['' (t @ ''\<newline>\<newline>'' @ CHR ''['' # tail)"
    using newline_bracket_inside [of t "CHR ''['' # tail"] n by auto
  with Cons.IH [OF n] show ?case by simp
qed

lemma match_here_last:
  assumes "valid_datetime t" and "who = ''user'' \<or> who = ''bot''" and "\<not> py_in ''\<newline>['' body"
  shows "match_here (transcript_line t who body)
           = Some ((strftime t, who, body @ ''\<newline>\<newline>''), [])"
  unfolding match_here_def transcript_line_def
  by (simp only: strip_prefix_append match_timestamp [OF assms(1)] match_role_append [OF assms(2)]
      lazy_dot_last [OF assms(3)] option.case prod.case)

lemma match_here_next:
  assumes "valid_datetime t" and "who = ''user'' \<or> who = ''bot''" and "\<not> py_in ''\<newline>['' body"
  shows "match_here (transcript_line t who body @ CHR ''['' # tail)
           = Some ((strftime t, who, body @ ''\<newline>''), CHR ''\<newline>'' # CHR ''['' # tail)"
  unfolding match_here_def transcript_line_def
  by (simp only: append_assoc strip_prefix_append match_timestamp [OF assms(1)]
      match_role_append [OF assms(2)] lazy_dot_next [OF assms(3)] option.case prod.case)

lemma findall_step:
  "s \<noteq> [] \<Longrightarrow>
   findall s = (case match_here s of None \<Rightarrow> findall (tl s) | Some (m, rest) \<Rightarrow> m # findall rest)"
  by (cases s) (auto split: option.splits)

lemma findall_skip_newline: "findall (CHR ''\<newline>'' # s) = findall s"
  by (simp add: match_here_def)

lemma strip_snoc_space: "is_space c \<Longrightarrow> strip (s @ [c]) = strip s"
proof (cases "\<forall>x\<in>set s. is_space x")
  case True
  assume "is_space c"
  with True have "\<forall>x\<in>set (s @ [c]). is_space x" by simp
  then have a: "dropWhile is_space (s @ [c]) = []" by (simp only: dropWhile_eq_Nil_conv)
  from True have b: "dropWhile is_space s = []" by (simp only: dropWhile_eq_Nil_conv)
  from a b show ?thesis by (simp only: strip_def)
next
  case False
  assume c: "is_space c"
  from False have "dropWhile is_space (s @ [c]) = dropWhile is_space s @ [c]"
    by (auto simp: dropWhile_append1)
  with c show ?thesis by (simp add: strip_def)
qed

lemma strip_newlines:
  "strip (s @ ''\<newline>'') = strip s" "strip (s @ ''\<newline>\<newline>'') = strip s"
proof -
  have sp: "is_space (CHR ''\<newline>'')" by (simp add: is_space_def)
  show "strip (s @ ''\<newline>'') = strip s" using strip_snoc_space [OF sp] by simp
  have "strip ((s @ ''\<newline>'') @ ''\<newline>'') = strip (s @ ''\<newline>'')"
    using strip_snoc_space [OF sp] by blast
  then show "strip (s @ ''\<newline>\<newline>'') = strip s"
    using strip_snoc_space [OF sp, of s] by simp
qed

text \<open>The text of a file that holds the lines of the triples and nothing else.\<close>

lemma findall_logged_lines:
  assumes "\<forall>(t, who, body)\<in>set rs.
             valid_datetime t \<and> (who = ''user'' \<or> who = ''bot'') \<and> \<not> py_in ''\<newline>['' body"
  shows "map (\<lambda>(ts, who, x). (ts, who, strip x))
           (findall (concat (map (\<lambda>(t, who, body). transcript_line t who body) rs)))
         = map (\<lambda>(t, who, body). (strftime t, who, strip body)) rs"
  using assms
proof (induction rs)
  case Nil
  show ?case by simp
next
  case (Cons r rs)
  obtain t who body where r: "r = (t, who, body)" by (cases r)
  from Cons.prems r have ok: "valid_datetime t" "who = ''user'' \<or> who = ''bot''"
      "\<not> py_in ''\<newline>['' body"
    by auto
  let ?rest = "concat (map (\<lambda>(t, who, body). transcript_line t who body) rs)"
  have ne: "transcript_line t who body @ ?rest \<noteq> []" by (simp add: transcript_line_def)
  show ?case
  proof (cases rs)
    case Nil
    with r show ?thesis
      using findall_step [OF ne] match_here_last [OF ok]
      by (simp add: strip_newlines)
  next
    case (Cons r' rs')
    obtain t' who' body' where r': "r' = (t', who', body')" by (cases r')
    with Cons obtain tail where tl: "?rest = CHR ''['' # tail"
      by (auto simp: transcript_line_def)
    from Cons.prems have "\<forall>(t, who, body)\<in>set rs.
             valid_datetime t \<and> (who = ''user'' \<or> who = ''bot'') \<and> \<not> py_in ''\<newline>['' body"
      by simp
    from Cons.IH [OF this] tl
    have ih: "map (\<lambda>(ts, who, x). (ts, who, strip x)) (findall (CHR ''['' # tail))
              = map (\<lambda>(t, who, body). (strftime t, who, strip body)) rs"
      by simp
    have "findall (transcript_line t who body @ CHR ''['' # tail)
            = (strftime t, who, body @ ''\<newline>'') # findall (CHR ''['' # tail)"
      using findall_step [of "transcript_line t who body @ CHR ''['' # tail"]
        match_here_next [OF ok, of tail] findall_skip_newline [of "CHR ''['' # tail"]
      by (simp add: transcript_line_def)
    with ih r tl show ?thesis
      by (simp add: strip_newlines)
  qed
qed

lemma universal_newlines_id: "CHR 0x0D \<notin> set s \<Longrightarrow> universal_newlines s = s"
  by (induction s rule: universal_newlines.induct) auto

lemma is_digit_not_cr: "is_digit c \<Longrightarrow> c \<noteq> CHR 0x0D"
  by (auto simp: is_digit_def)

lemma strftime_no_cr: "CHR 0x0D \<notin> set (strftime t)"
proof -
  have "\<And>k n. CHR 0x0D \<notin> set (zfill k (str_nat n))"
    using str_nat_digits is_digit_not_cr by (auto simp: zfill_def)
  then show ?thesis by (simp add: strftime_def)
qed

lemma transcript_line_no_cr:
  "who = ''user'' \<or> who = ''bot'' \<Longrightarrow> CHR 0x0D \<notin> set body \<Longrightarrow>
   CHR 0x0D \<notin> set (transcript_line t who body)"
  using strftime_no_cr [of t] by (auto simp: transcript_line_def)

lemma log_all_content:
  "(case log_all rs u fs (history_path u) of None \<Rightarrow> [] | Some c \<Rightarrow> c) =
     (case fs (history_path u) of None \<Rightarrow> [] | Some old \<Rightarrow> old)
       @ concat (map (\<lambda>(t, who, body). transcript_line t who body) rs)"
proof (induction rs arbitrary: fs)
  case Nil
  show ?case by simp
next
  case (Cons r rs)
  obtain t who body where r: "r = (t, who, body)" by (cases r)
  have "(case save_chat_message t who body u fs (history_path u) of None \<Rightarrow> [] | Some c \<Rightarrow> c)
          = (case fs (history_path u) of None \<Rightarrow> [] | Some old \<Rightarrow> old) @ transcript_line t who body"
    by (simp add: save_chat_message_def)
  with Cons.IH [of "save_chat_message t who body u fs"] r show ?case by simp
qed

lemma api_chat_history_content:
  "api_chat_history fs u =
     map (\<lambda>(ts, who, x). (ts, who, strip x))
       (findall (universal_newlines (case fs (history_path u) of None \<Rightarrow> [] | Some c \<Rightarrow> c)))"
  by (simp add: api_chat_history_def read_text_def split: option.splits)

text \<open>
  C6, as the code has it. The triples are written to a file that is absent or empty.
  Their times are dates from the year 1000 on, their roles are \<open>user\<close> or \<open>bot\<close>, and
  no text contains a carriage return or a newline directly followed by an opening
  bracket. Then the history API returns one message per triple, in order, with the time
  stamp as written, the role, and the text stripped.
\<close>

theorem transcript_round_trip:
  assumes "fs (history_path u) = None \<or> fs (history_path u) = Some []"
    and "\<forall>(t, who, body)\<in>set rs.
           valid_datetime t \<and> (who = ''user'' \<or> who = ''bot'')
           \<and> \<not> py_in ''\<newline>['' body \<and> CHR 0x0D \<notin> set body"
  shows "api_chat_history (log_all rs u fs) u
           = map (\<lambda>(t, who, body). (strftime t, who, strip body)) rs"
proof -
  let ?lines = "concat (map (\<lambda>(t, who, body). transcript_line t who body) rs)"
  from assms(1) log_all_content [of rs u fs]
  have c: "(case log_all rs u fs (history_path u) of None \<Rightarrow> [] | Some c \<Rightarrow> c) = ?lines"
    by auto
  have "\<forall>r\<in>set rs. CHR 0x0D \<notin> set (case r of (t, who, body) \<Rightarrow> transcript_line t who body)"
  proof
    fix r assume m: "r \<in> set rs"
    obtain t who body where r: "r = (t, who, body)" by (cases r)
    from assms(2) m r have "who = ''user'' \<or> who = ''bot''" "CHR 0x0D \<notin> set body" by auto
    from transcript_line_no_cr [OF this] r
    show "CHR 0x0D \<notin> set (case r of (t, who, body) \<Rightarrow> transcript_line t who body)" by simp
  qed
  then have "CHR 0x0D \<notin> set ?lines" by auto
  then have u: "universal_newlines ?lines = ?lines" by (rule universal_newlines_id)
  from assms(2) have "\<forall>(t, who, body)\<in>set rs.
             valid_datetime t \<and> (who = ''user'' \<or> who = ''bot'') \<and> \<not> py_in ''\<newline>['' body"
    by auto
  from findall_logged_lines [OF this] c u show ?thesis
    by (simp add: api_chat_history_content)
qed

theorem transcript_round_trip_witness:
  "api_chat_history
     (log_all [(time_received example_world, ''user'', ''  I have a headache [since Monday]''),
               (time_replied example_world, ''bot'', ''Please see Dr. Ricci\<newline>'')]
        ''Mario Rossi'' Map.empty) ''Mario Rossi''
   = [(''04-11-2026 09:30:00'', ''user'', ''I have a headache [since Monday]''),
      (''04-11-2026 09:30:07'', ''bot'', ''Please see Dr. Ricci'')]"
proof -
  have f: "Map.empty (history_path ''Mario Rossi'') = None \<or> Map.empty (history_path ''Mario Rossi'') = Some []"
    by simp
  have v: "\<forall>(t, who, body)\<in>set [(time_received example_world, ''user'', ''  I have a headache [since Monday]''),
               (time_replied example_world, ''bot'', ''Please see Dr. Ricci\<newline>'')].
           valid_datetime t \<and> (who = ''user'' \<or> who = ''bot'')
           \<and> \<not> py_in ''\<newline>['' body \<and> CHR 0x0D \<notin> set body"
    by (simp add: valid_datetime_def example_world_def)
  have s: "strip ''  I have a headache [since Monday]'' = ''I have a headache [since Monday]''"
    "strip ''Please see Dr. Ricci\<newline>'' = ''Please see Dr. Ricci''"
    by (simp_all add: strip_def is_space_def)
  show ?thesis
    using transcript_round_trip [OF f v] by (simp add: example_stamps s)
qed

text \<open>
  A text with a newline followed by a bracket is cut at that newline when read back.
\<close>

theorem bracket_after_newline_counterexample:
  "api_chat_history
     (log_all [(time_received example_world, ''user'', ''My results:\<newline>[1] glucose 110'')]
        ''Mario Rossi'' Map.empty) ''Mario Rossi''
   = [(''04-11-2026 09:30:00'', ''user'', ''My results:'')]
   \<and> strip ''My results:\<newline>[1] glucose 110'' = ''My results:\<newline>[1] glucose 110''"
proof -
  have a: "strip ''My results:\<newline>[1] glucose 110'' = ''My results:\<newline>[1] glucose 110''"
    by (simp add: strip_def is_space_def)
  have b: "strip ''My results:'' = ''My results:''"
    by (simp add: strip_def is_space_def)
  have "findall (universal_newlines
          (''[04-11-2026 09:30:00] user: My results:\<newline>[1] glucose 110\<newline>\<newline>''))
        = [(''04-11-2026 09:30:00'', ''user'', ''My results:'')]"
    by (simp add: match_here_def timestamp_atoms_def is_digit_def match_role_def)
  then show ?thesis
    using a b
    by (simp add: api_chat_history_content save_chat_message_def transcript_line_def example_stamps)
qed

end
